theory Spec2Isabelle
  imports Main "HOL-Library.AList" "HOL-Library.Multiset"
begin

section \<open>Drain reconciliation of a Vitess shard\<close>

text \<open>
  The development follows \<^verbatim>\<open>pkg/controller/vitessshardreplication/reconcile_drain.go\<close>.
  Go values are modelled as follows: strings are \<^typ>\<open>string\<close> (byte lists), an
  \<^verbatim>\<open>error\<close> is its message, a nil error is \<^term>\<open>None\<close>, a pair
  \<^verbatim>\<open>(bool, error)\<close> is a pair, a panic is an explicit outcome.
\<close>

subsection \<open>The safe-upgrade version gate (safeMysqldUpgrade)\<close>

type_synonym error = string

definition isDigit :: "char \<Rightarrow> bool" where
  "isDigit c = (c \<in> set ''0123456789'')"

text \<open>The value of a digit: its place in the string of the ten digits.\<close>

definition digitVal :: "char \<Rightarrow> int" where
  "digitVal c = int (length (takeWhile (\<lambda>d. d \<noteq> c) ''0123456789''))"

text \<open>
  \<^verbatim>\<open>strconv.Atoi\<close> on a non-empty string of decimal digits, on a platform whose
  \<^verbatim>\<open>int\<close> has 64 bits: the value of the digits, and \<open>2^63 - 1\<close> when that value
  does not fit (the source drops the range error that comes with it).
\<close>

definition maxInt :: int where
  "maxInt = 2 ^ 63 - 1"

definition Atoi :: "string \<Rightarrow> int" where
  "Atoi s = min (foldl (\<lambda>n c. 10 * n + digitVal c) 0 s) maxInt"

text \<open>\<^verbatim>\<open>strings.SplitN(s, ":", 2)\<close>: cut at the first colon, if there is one.\<close>

definition SplitN2 :: "string \<Rightarrow> string list" where
  "SplitN2 s =
     (if CHR '':'' \<in> set s
      then [takeWhile (\<lambda>c. c \<noteq> CHR '':'') s, tl (dropWhile (\<lambda>c. c \<noteq> CHR '':'') s)]
      else [s])"

text \<open>
  \<^verbatim>\<open>mysqlImageVersion.FindStringSubmatch\<close> for the pattern
  \<^verbatim>\<open>^(\d+)\.(\d+)\.(\d+)\<close>: the empty list (Go's nil) when the pattern does not match at
  the start of the string, otherwise the whole match followed by the three groups. Each
  group is a maximal run of digits: a shorter run would be followed by a digit, where the
  pattern wants a dot or ends.
\<close>

definition FindStringSubmatch :: "string \<Rightarrow> string list" where
  "FindStringSubmatch s =
     (let g1 = takeWhile isDigit s; r1 = dropWhile isDigit s in
      if g1 = [] then [] else
      case r1 of [] \<Rightarrow> [] | c1 # s2 \<Rightarrow>
      if c1 \<noteq> CHR ''.'' then [] else
      let g2 = takeWhile isDigit s2; r2 = dropWhile isDigit s2 in
      if g2 = [] then [] else
      case r2 of [] \<Rightarrow> [] | c2 # s3 \<Rightarrow>
      if c2 \<noteq> CHR ''.'' then [] else
      let g3 = takeWhile isDigit s3 in
      if g3 = [] then [] else [g1 @ ''.'' @ g2 @ ''.'' @ g3, g1, g2, g3])"

definition downgradeError :: "string \<Rightarrow> string \<Rightarrow> string \<Rightarrow> error" where
  "downgradeError part current desired =
     ''cannot downgrade '' @ part @ '' version from '' @ current @ '' to '' @ desired"

text \<open>The comparison of the parsed parts, lines 584 to 619 of the source.\<close>

definition compareParts :: "string \<Rightarrow> string \<Rightarrow> int list \<Rightarrow> int list \<Rightarrow> bool \<times> error option" where
  "compareParts current desired curParts dstParts =
     (if dstParts ! 0 < curParts ! 0
      then (False, Some (downgradeError ''major'' current desired))
      else if dstParts ! 0 = curParts ! 1 \<and> dstParts ! 1 < curParts ! 1
      then (False, Some (downgradeError ''minor'' current desired))
      else if dstParts ! 0 = 8 \<and> dstParts ! 1 = 0 \<and> curParts ! 0 = 8 \<and> curParts ! 1 = 0
      then
        (if dstParts ! 2 \<ge> 34 \<and> curParts ! 2 \<ge> 34 then (False, None)
         else if dstParts ! 2 < curParts ! 2
         then (False, Some (downgradeError ''patch'' current desired))
         else (dstParts ! 2 \<noteq> curParts ! 2, None))
      else (dstParts ! 0 \<noteq> curParts ! 0 \<or> dstParts ! 1 \<noteq> curParts ! 1, None))"

definition safeMysqldUpgrade :: "string \<Rightarrow> string \<Rightarrow> bool \<times> error option" where
  "safeMysqldUpgrade currentImage desiredImage =
     (if currentImage = [] \<or> desiredImage = [] then (False, None)
      else if desiredImage = currentImage then (False, None)
      else
        let currentParts = SplitN2 currentImage in
        if length currentParts \<noteq> 2 then (False, None)
        else
        let desiredParts = SplitN2 desiredImage in
        if length desiredParts \<noteq> 2 then (False, None)
        else
        let current = currentParts ! 1;
            desired = desiredParts ! 1;
            curStrParts = FindStringSubmatch current in
        if length curStrParts \<noteq> 4 then (True, None)
        else
        let dstStrParts = FindStringSubmatch desired in
        if length dstStrParts \<noteq> 4 then (True, None)
        else if curStrParts = dstStrParts then (False, None)
        else
          let dstParts = map Atoi (tl dstStrParts);
              curParts = map Atoi (tl curStrParts)
          in compareParts current desired curParts dstParts)"

subsection \<open>Pods, drain markers and the drain package\<close>

text \<open>
  A pod as the source reads it. \<open>podAlias\<close> is
  \<^verbatim>\<open>topoproto.TabletAliasString(vttablet.AliasFromPod(pod))\<close>, \<open>tabletTypeLabel\<close> is
  \<^verbatim>\<open>pod.Labels[planetscalev2.TabletTypeLabel]\<close> (the empty string when the label is
  absent), \<open>podReady\<close> is \<^verbatim>\<open>podutils.IsPodReady(pod)\<close>, \<open>containers\<close> lists the name
  and image of \<^verbatim>\<open>pod.Spec.Containers\<close>. The last three fields are the drain markers
  among the annotations of the pod: whether the keys "started", "acknowledged" and
  "finished" are present.
\<close>

record pod =
  podName :: string
  podAlias :: string
  tabletTypeLabel :: string
  podReady :: bool
  containers :: "(string \<times> string) list"
  drainStarted :: bool
  drainAcknowledged :: bool
  drainFinished :: bool

text \<open>
  Modelled from the spec: package \<^verbatim>\<open>drain\<close> is not among the source files. The spec
  (sections 3 and 6) describes the drain markers as the presence or absence of the
  annotation keys "started" (written by the drainer), "acknowledged" and "finished"
  (written and cleared by the reconciler) on the pod, and the four states of a drain.
  \<open>Started\<close>, \<open>Acknowledged\<close> and \<open>Finished\<close> say whether a key is present; \<open>Finish\<close>,
  \<open>Acknowledge\<close>, \<open>Unfinish\<close> and \<open>Unacknowledge\<close> add or remove one key and leave the
  rest of the pod as it is.
\<close>

datatype State = NotDrainingState | DrainingState | AcknowledgedState | FinishedState

definition Started :: "pod \<Rightarrow> bool" where
  "Started p = drainStarted p"

definition Acknowledged :: "pod \<Rightarrow> bool" where
  "Acknowledged p = drainAcknowledged p"

definition Finished :: "pod \<Rightarrow> bool" where
  "Finished p = drainFinished p"

definition Finish :: "pod \<Rightarrow> pod" where
  "Finish p = p\<lparr>drainFinished := True\<rparr>"

definition Acknowledge :: "pod \<Rightarrow> pod" where
  "Acknowledge p = p\<lparr>drainAcknowledged := True\<rparr>"

definition Unfinish :: "pod \<Rightarrow> pod" where
  "Unfinish p = p\<lparr>drainFinished := False\<rparr>"

definition Unacknowledge :: "pod \<Rightarrow> pod" where
  "Unacknowledge p = p\<lparr>drainAcknowledged := False\<rparr>"

definition IsPodReady :: "pod \<Rightarrow> bool" where
  "IsPodReady p = podReady p"

subsection \<open>updateDrainStatus\<close>

datatype 'a outcome = Panicked | Returned 'a

text \<open>
  The \<^verbatim>\<open>switch\<close> of updateDrainStatus: the pod after the local change and the flag
  \<^verbatim>\<open>hasUpdated\<close>. Asking for \<open>DrainingState\<close> panics.
\<close>

fun markDrainStatus :: "pod \<Rightarrow> State \<Rightarrow> (pod \<times> bool) outcome" where
  "markDrainStatus pod FinishedState =
     (if \<not> Finished pod then Returned (Finish pod, True) else Returned (pod, False))"
| "markDrainStatus pod AcknowledgedState =
     (if \<not> Acknowledged pod then Returned (Acknowledge pod, True) else Returned (pod, False))"
| "markDrainStatus pod NotDrainingState =
     (let (pod1, upd1) = (if Finished pod then (Unfinish pod, True) else (pod, False));
          (pod2, upd2) = (if Acknowledged pod1 then (Unacknowledge pod1, True) else (pod1, upd1))
      in Returned (pod2, upd2))"
| "markDrainStatus pod DrainingState = Panicked"

text \<open>
  updateDrainStatus returns the pod object as the call leaves it, the objects sent to the
  runtime platform with \<^verbatim>\<open>r.client.Update\<close> (none or one) and the error. The first
  argument is the platform's answer to an update.
\<close>

definition updateDrainStatus ::
  "(pod \<Rightarrow> error option) \<Rightarrow> pod \<Rightarrow> State \<Rightarrow> (pod \<times> pod list \<times> error option) outcome" where
  "updateDrainStatus clientUpdate pod drainStatus =
     (case markDrainStatus pod drainStatus of
        Panicked \<Rightarrow> Panicked
      | Returned (pod', hasUpdated) \<Rightarrow>
          if \<not> hasUpdated then Returned (pod', [], None)
          else Returned (pod', [pod'], clientUpdate pod'))"

subsection \<open>isShardHealthy\<close>

type_synonym ConditionStatus = string

definition ConditionTrue :: ConditionStatus where
  "ConditionTrue = ''True''"

record VitessTabletStatus =
  Available :: ConditionStatus

text \<open>
  The shard object: \<open>statusTablets\<close> is \<^verbatim>\<open>vts.Status.Tablets\<close> in the order in which the
  \<^verbatim>\<open>range\<close> visits it, \<open>usingExternalDatastore\<close> is
  \<^verbatim>\<open>vts.Spec.UsingExternalDatastore()\<close>, \<open>mysqldImage\<close> is
  \<^verbatim>\<open>vts.Spec.Images.Mysqld.Image()\<close>.
\<close>

record VitessShard =
  statusTablets :: "(string \<times> VitessTabletStatus) list"
  usingExternalDatastore :: bool
  mysqldImage :: string

fun firstUnavailable :: "(string \<times> VitessTabletStatus) list \<Rightarrow> error option" where
  "firstUnavailable [] = None"
| "firstUnavailable ((name, tablet) # rest) =
     (if Available tablet \<noteq> ConditionTrue then Some (''tablet '' @ name @ '' is not Available'')
      else firstUnavailable rest)"

definition isShardHealthy :: "VitessShard \<Rightarrow> error option" where
  "isShardHealthy vts = firstUnavailable (statusTablets vts)"

subsection \<open>Topology records\<close>

text \<open>
  Tablet aliases, tablet records and the shard record come from the Vitess library. A nil
  alias pointer is \<^term>\<open>None\<close>. \<open>TabletAliasEqual\<close> is protobuf equality,
  \<open>TabletAliasString\<close> prints \<^verbatim>\<open><nil>\<close> for nil and the cell, a dash and the uid on
  ten digits otherwise, \<open>HasPrimary\<close> says that the primary alias is not nil and not the
  zero alias.
\<close>

record TabletAlias =
  Cell :: string
  Uid :: nat

datatype TabletType =
  UNKNOWN | PRIMARY | REPLICA | RDONLY | SPARE | EXPERIMENTAL | BACKUP | RESTORE | DRAINED

record TabletInfo =
  Alias :: "TabletAlias option"
  Type :: TabletType

record ShardInfo =
  PrimaryAlias :: "TabletAlias option"

definition TabletAliasEqual :: "TabletAlias option \<Rightarrow> TabletAlias option \<Rightarrow> bool" where
  "TabletAliasEqual a b = (a = b)"

definition digitChar :: "nat \<Rightarrow> char" where
  "digitChar n = ''0123456789'' ! (n mod 10)"

function decimal :: "nat \<Rightarrow> string" where
  "decimal n = (if n < 10 then [digitChar n] else decimal (n div 10) @ [digitChar n])"
  by pat_completeness auto
termination
  by (relation "measure id") auto

definition TabletAliasString :: "TabletAlias option \<Rightarrow> string" where
  "TabletAliasString a =
     (case a of
        None \<Rightarrow> ''<nil>''
      | Some ta \<Rightarrow>
          let d = decimal (Uid ta)
          in Cell ta @ ''-'' @ replicate (10 - length d) (CHR ''0'') @ d)"

definition TabletAliasIsZero :: "TabletAlias option \<Rightarrow> bool" where
  "TabletAliasIsZero a = (case a of None \<Rightarrow> True | Some ta \<Rightarrow> Cell ta = [] \<and> Uid ta = 0)"

definition HasPrimary :: "ShardInfo \<Rightarrow> bool" where
  "HasPrimary shard = (\<not> TabletAliasIsZero (PrimaryAlias shard))"

subsection \<open>candidatePrimary\<close>

text \<open>
  Modelled from the spec: the constant \<^verbatim>\<open>planetscalev2.ExternalMasterTabletPoolName\<close> is
  declared outside the source files; the spec calls it the designated external-primary
  pool. No theorem below depends on its value.
\<close>

definition ExternalMasterTabletPoolName :: string where
  "ExternalMasterTabletPoolName = ''externalmaster''"

text \<open>
  The first loop of candidatePrimary. The tablet map is given as the list of its entries in
  the order in which the \<^verbatim>\<open>range\<close> visits them; each \<^verbatim>\<open>continue\<close> of the source is
  one branch that keeps the candidates found in the rest of the loop.
\<close>

fun candidates ::
  "ShardInfo \<Rightarrow> (string \<rightharpoonup> pod) \<Rightarrow> bool \<Rightarrow> (string \<times> TabletInfo) list \<Rightarrow> TabletInfo list" where
  "candidates shard pods usingExternal [] = []"
| "candidates shard pods usingExternal ((tabletAliasStr, tablet) # rest) =
     (let more = candidates shard pods usingExternal rest in
      if TabletAliasEqual (Alias tablet) (PrimaryAlias shard) then more
      else case pods tabletAliasStr of
        None \<Rightarrow> more
      | Some pod \<Rightarrow>
          if usingExternal \<and> tabletTypeLabel pod \<noteq> ExternalMasterTabletPoolName then more
          else if usingExternal \<and> Type tablet \<noteq> SPARE \<and> Type tablet \<noteq> PRIMARY then more
          else if \<not> usingExternal \<and> Type tablet \<noteq> REPLICA then more
          else if \<not> IsPodReady pod then more
          else if Started pod \<or> Acknowledged pod \<or> Finished pod then more
          else tablet # more)"

text \<open>
  The probes. Every candidate gets one goroutine, which sends one result on the channel:
  an error (of the status call, of the deadline or of decoding) or a position. The order
  in which the results arrive is not fixed by the program: it is the list \<open>sched\<close> of
  goroutine indices, read in order; an index that names no goroutine is passed over. In a
  run of the program \<open>sched\<close> lists every index below the number of candidates once, since
  the collector receives as many results as there are candidates.

  Positions are values of the Vitess library; the model takes the two operations the
  source uses, \<open>IsZero\<close> and \<open>AtLeast\<close>, as parameters. The variable
  \<^verbatim>\<open>highestPosition\<close> starts as the zero position, written \<^term>\<open>None\<close>, for which
  \<^verbatim>\<open>IsZero\<close> holds.
\<close>

record 'pos positions =
  IsZero :: "'pos \<Rightarrow> bool"
  AtLeast :: "'pos \<Rightarrow> 'pos \<Rightarrow> bool"

definition arrivals :: "nat list \<Rightarrow> 'a list \<Rightarrow> 'a list" where
  "arrivals sched cs = map (\<lambda>i. cs ! i) (filter (\<lambda>i. i < length cs) sched)"

definition replaces :: "'pos positions \<Rightarrow> 'pos option \<Rightarrow> 'pos \<Rightarrow> bool" where
  "replaces ops highestPosition position =
     (case highestPosition of
        None \<Rightarrow> True
      | Some h \<Rightarrow> IsZero ops h \<or> \<not> AtLeast ops h position)"

fun collect ::
  "'pos positions \<Rightarrow> (TabletInfo \<times> (error + 'pos)) list \<Rightarrow>
   TabletInfo option \<times> 'pos option \<Rightarrow> TabletInfo option \<times> 'pos option" where
  "collect ops [] (bestCandidate, highestPosition) = (bestCandidate, highestPosition)"
| "collect ops ((tablet, Inl err) # rest) (bestCandidate, highestPosition) =
     collect ops rest (bestCandidate, highestPosition)"
| "collect ops ((tablet, Inr position) # rest) (bestCandidate, highestPosition) =
     (if replaces ops highestPosition position
      then collect ops rest (Some tablet, Some position)
      else collect ops rest (bestCandidate, highestPosition))"

definition candidatePrimary ::
  "'pos positions \<Rightarrow> (TabletInfo \<Rightarrow> error + 'pos) \<Rightarrow> nat list \<Rightarrow>
   ShardInfo \<Rightarrow> (string \<times> TabletInfo) list \<Rightarrow> (string \<rightharpoonup> pod) \<Rightarrow> bool \<Rightarrow> TabletInfo option" where
  "candidatePrimary ops probe sched shard tablets pods usingExternal =
     (let cs = candidates shard pods usingExternal tablets in
      if length cs = 0 then None
      else
        let results = map (\<lambda>tablet. (tablet, probe tablet)) (arrivals sched cs);
            (bestCandidate, highestPosition) = collect ops results (None, None)
        in case bestCandidate of
             None \<Rightarrow> Some (cs ! 0)
           | Some tablet \<Rightarrow> Some tablet)"

subsection \<open>Events, results and the state of a pass\<close>

datatype EventType = EventTypeNormal | EventTypeWarning

text \<open>An event: its type, its reason and its message.\<close>

type_synonym event = "EventType \<times> string \<times> string"

record Result =
  RequeueAfter :: nat

text \<open>
  Modelled from the spec: package \<^verbatim>\<open>results\<close> is not among the source files. The spec
  (sections 4.4 and 7) has a failed read "schedule a retry after a fixed backoff delay"
  without an error, a failed update reported while the pass goes on, and a failed
  upgrade-safety command "return error". The builder keeps the first error recorded and
  the shortest delay asked for (zero: none); each of \<open>Error\<close>, \<open>RequeueAfter\<close> and
  \<open>Result\<close> returns the result and the first error.
\<close>

record Builder =
  firstError :: "error option"
  result :: Result

definition newBuilder :: Builder where
  "newBuilder = \<lparr>firstError = None, result = \<lparr>RequeueAfter = 0\<rparr>\<rparr>"

definition builderError :: "Builder \<Rightarrow> error \<Rightarrow> Builder" where
  "builderError b err = (case firstError b of None \<Rightarrow> b\<lparr>firstError := Some err\<rparr> | Some e \<Rightarrow> b)"

definition builderRequeueAfter :: "Builder \<Rightarrow> nat \<Rightarrow> Builder" where
  "builderRequeueAfter b delay =
     (if RequeueAfter (result b) = 0 \<or> delay < RequeueAfter (result b)
      then b\<lparr>result := \<lparr>RequeueAfter = delay\<rparr>\<rparr> else b)"

definition builderResult :: "Builder \<Rightarrow> Result \<times> error option" where
  "builderResult b = (result b, firstError b)"

datatype action =
  CallTabletExternallyReparented "TabletAlias option"
| CallChangeTabletType "TabletAlias option" TabletType
| CallPlannedReparentShard "TabletAlias option"

text \<open>
  What a pass has done so far: the pod objects it holds (by tablet alias), the result
  builder, the events emitted, the pod objects sent to the platform with
  \<^verbatim>\<open>r.client.Update\<close>, the local variables \<^verbatim>\<open>drains\<close>, \<^verbatim>\<open>abortingDrain\<close> and
  \<^verbatim>\<open>acknowledgedDrain\<close>, the tablets on which fast shutdown was switched off, the
  handover calls made, the outcomes counted by \<^verbatim>\<open>plannedReparentCount\<close>, and whether the
  pass has panicked.
\<close>

record pass =
  pods :: "string \<rightharpoonup> pod"
  builder :: Builder
  events :: "event list"
  updates :: "pod list"
  drains :: "(string \<times> State) list"
  abortingDrain :: bool
  acknowledgedDrain :: bool
  commands :: "string list"
  handovers :: "action list"
  reparentCount :: "error option list"
  panicked :: bool

definition newPass :: pass where
  "newPass = \<lparr>pods = Map.empty, builder = newBuilder, events = [], updates = [], drains = [],
     abortingDrain = False, acknowledgedDrain = False, commands = [], handovers = [],
     reparentCount = [], panicked = False\<rparr>"

definition emit :: "EventType \<Rightarrow> string \<Rightarrow> string \<Rightarrow> pass \<Rightarrow> pass" where
  "emit ty reason message s = s\<lparr>events := events s @ [(ty, reason, message)]\<rparr>"

text \<open>
  The collaborators of a pass, each by its answer: the pod list, the topology store, the
  platform's answer to an update, the tablet manager client, the reparent calls. The
  order in which a \<^verbatim>\<open>range\<close> visits the keys of the pod map is not fixed by the
  program: \<open>rangePods\<close> is the order of the loop of reconcileDrain and \<open>rangePodsUpgrade\<close>
  the order of the loop of disableFastShutdown; a key that is not in the map is passed
  over. The tablet map is the list of its entries in the order of the only loop over it.

  \<^verbatim>\<open>drain.GetState\<close> and \<^verbatim>\<open>drain.StateTransitions\<close> (the drain state machine) and the
  constant \<^verbatim>\<open>replicationRequeueDelay\<close> are declared outside the source files; they are
  parameters here, so that what is proved holds for every state machine and every delay.
\<close>

record 'pos env =
  clientList :: "error + pod list"
  GetShard :: "error + ShardInfo"
  GetTabletMapForShardByCell :: "error + (string \<times> TabletInfo) list"
  clientUpdate :: "pod \<Rightarrow> error option"
  GetState :: "pod \<Rightarrow> State \<times> error option"
  StateTransitions :: "(string \<times> State) list \<Rightarrow> (string \<times> State) list"
  rangePods :: "string list"
  rangePodsUpgrade :: "string list"
  ExecuteFetchAsDba :: "TabletInfo \<Rightarrow> error option"
  positionOps :: "'pos positions"
  ReplicationStatus :: "TabletInfo \<Rightarrow> error + 'pos"
  probeOrder :: "nat list"
  TabletExternallyReparented :: "TabletAlias option \<Rightarrow> error option"
  ChangeTabletType :: "TabletAlias option \<Rightarrow> TabletType \<Rightarrow> error option"
  PlannedReparentShard :: "TabletAlias option \<Rightarrow> error option"
  replicationRequeueDelay :: nat

text \<open>The three ways in which reconcileDrain returns.\<close>

definition returnResult :: "pass \<Rightarrow> (Result \<times> error option) outcome \<times> pass" where
  "returnResult s = (Returned (builderResult (builder s)), s)"

definition returnError :: "error \<Rightarrow> pass \<Rightarrow> (Result \<times> error option) outcome \<times> pass" where
  "returnError err s = returnResult (s\<lparr>builder := builderError (builder s) err\<rparr>)"

definition returnRequeueAfter :: "nat \<Rightarrow> pass \<Rightarrow> (Result \<times> error option) outcome \<times> pass" where
  "returnRequeueAfter delay s = returnResult (s\<lparr>builder := builderRequeueAfter (builder s) delay\<rparr>)"

text \<open>The alias to pod map: a later pod of the list replaces an earlier one of the same alias.\<close>

definition podIndex :: "pod list \<Rightarrow> (string \<rightharpoonup> pod)" where
  "podIndex items = fold (\<lambda>pod m. m(podAlias pod \<mapsto> pod)) items Map.empty"

text \<open>
  The value of \<^verbatim>\<open>m[key]\<close> for a map of drain states. For a missing key Go gives the
  zero value of \<^verbatim>\<open>drain.State\<close>, taken here to be \<open>NotDrainingState\<close>; the source
  compares the value with \<open>FinishedState\<close> only.
\<close>

definition stateAt :: "(string \<times> State) list \<Rightarrow> string \<Rightarrow> State" where
  "stateAt m key = (case map_of m key of None \<Rightarrow> NotDrainingState | Some st \<Rightarrow> st)"

text \<open>
  One call of updateDrainStatus on the pod held under \<open>key\<close>, with what the two loops of
  reconcileDrain do with its error: an event and \<^verbatim>\<open>resultBuilder.Error\<close>.
\<close>

definition applyUpdate :: "'pos env \<Rightarrow> string \<Rightarrow> pod \<Rightarrow> State \<Rightarrow> pass \<Rightarrow> pass" where
  "applyUpdate env key pod drainStatus s =
     (case updateDrainStatus (clientUpdate env) pod drainStatus of
        Panicked \<Rightarrow> s\<lparr>panicked := True\<rparr>
      | Returned (pod', sent, err) \<Rightarrow>
          let s1 = s\<lparr>pods := (pods s)(key \<mapsto> pod'), updates := updates s @ sent\<rparr>
          in case err of
               None \<Rightarrow> s1
             | Some e \<Rightarrow>
                 (emit EventTypeWarning ''UpdateFailed''
                    (''failed to update drain annotation on Pod '' @ podName pod' @ '': '' @ e) s1)
                 \<lparr>builder := builderError (builder s1) e\<rparr>)"

subsection \<open>The loops of reconcileDrain\<close>

text \<open>
  Phase 2, one pod: a pod with a drain request enters \<^verbatim>\<open>drains\<close> with its state; any
  other pod is marked as not draining, after the check for an aborted drain.
\<close>

definition drainStateStep :: "'pos env \<Rightarrow> string \<Rightarrow> pass \<Rightarrow> pass" where
  "drainStateStep env tabletAliasStr s =
     (case pods s tabletAliasStr of
        None \<Rightarrow> s
      | Some pod \<Rightarrow>
          if Started pod then
            (let (st, err) = GetState env pod;
                 s1 = s\<lparr>drains := AList.update tabletAliasStr st (drains s)\<rparr>
             in case err of
                  None \<Rightarrow> s1
                | Some e \<Rightarrow>
                    emit EventTypeWarning ''InvalidDrainState''
                      (''Found a pod in an invalid drain state: '' @ podName pod @ '', '' @ e) s1)
          else
            (let s1 = (if Acknowledged pod \<or> Finished pod
                       then emit EventTypeWarning ''AbortingDrain''
                              (''found a partially drained Pod that does not have a drain request: ''
                                 @ podName pod)
                              (s\<lparr>abortingDrain := True\<rparr>)
                       else s)
             in applyUpdate env tabletAliasStr pod NotDrainingState s1))"

text \<open>
  Phase 3: the loop over the transitions. The primary is not marked as finished; a
  transition for an alias without a pod reads a nil pod, which panics, as does a
  transition to \<open>DrainingState\<close>.
\<close>

fun applyTransitions :: "'pos env \<Rightarrow> string \<Rightarrow> (string \<times> State) list \<Rightarrow> pass \<Rightarrow> pass" where
  "applyTransitions env primaryAliasStr [] s = s"
| "applyTransitions env primaryAliasStr ((tabletAliasStr, state) # rest) s =
     (if state = FinishedState \<and> tabletAliasStr = primaryAliasStr
      then applyTransitions env primaryAliasStr rest s
      else
        let s1 = (if state = AcknowledgedState then s\<lparr>acknowledgedDrain := True\<rparr> else s)
        in case pods s1 tabletAliasStr of
             None \<Rightarrow> s1\<lparr>panicked := True\<rparr>
           | Some pod \<Rightarrow>
               let s2 = applyUpdate env tabletAliasStr pod state s1
               in if panicked s2 then s2 else applyTransitions env primaryAliasStr rest s2)"

subsection \<open>disableFastShutdown\<close>

text \<open>
  Modelled from the spec: the constant \<^verbatim>\<open>vttablet.MysqldContainerName\<close> is declared
  outside the source files. No theorem below depends on its value.
\<close>

definition MysqldContainerName :: string where
  "MysqldContainerName = ''mysqld''"

fun mysqldContainerImage :: "(string \<times> string) list \<Rightarrow> string" where
  "mysqldContainerImage [] = []"
| "mysqldContainerImage ((name, img) # rest) =
     (if name = MysqldContainerName then img else mysqldContainerImage rest)"

fun disableFastShutdown ::
  "'pos env \<Rightarrow> (string \<times> TabletInfo) list \<Rightarrow> string \<Rightarrow> string list \<Rightarrow> pass \<Rightarrow> pass \<times> error option" where
  "disableFastShutdown env tablets desiredImage [] s = (s, None)"
| "disableFastShutdown env tablets desiredImage (tabletAlias # rest) s =
     (case pods s tabletAlias of
        None \<Rightarrow> disableFastShutdown env tablets desiredImage rest s
      | Some pod \<Rightarrow>
          (case map_of tablets tabletAlias of
             None \<Rightarrow> disableFastShutdown env tablets desiredImage rest s
           | Some tablet \<Rightarrow>
               let current = mysqldContainerImage (containers pod);
                   (needsSafe, err) = safeMysqldUpgrade current desiredImage
               in case err of
                    Some e \<Rightarrow> (s, Some e)
                  | None \<Rightarrow>
                      if \<not> needsSafe then disableFastShutdown env tablets desiredImage rest s
                      else
                        (case ExecuteFetchAsDba env tablet of
                           Some e \<Rightarrow>
                             (s\<lparr>commands := commands s @ [tabletAlias]\<rparr>,
                              Some (''failed to disable fast shutdown for tablet '' @ tabletAlias
                                      @ '': '' @ e))
                         | None \<Rightarrow>
                             disableFastShutdown env tablets desiredImage rest
                               (emit EventTypeNormal ''MySQL_Upgrade''
                                  ''innodb_fast_shutdown = 0 to prepare MySQL upgrade''
                                  (s\<lparr>commands := commands s @ [tabletAlias]\<rparr>)))))"

subsection \<open>The handover\<close>

definition handleExternalReparent ::
  "'pos env \<Rightarrow> TabletAlias option \<Rightarrow> TabletAlias option \<Rightarrow> pass \<Rightarrow> pass \<times> error option" where
  "handleExternalReparent env newPrimaryAlias oldPrimaryAlias s =
     (let s1 = s\<lparr>handovers := handovers s @ [CallTabletExternallyReparented newPrimaryAlias]\<rparr>
      in case TabletExternallyReparented env newPrimaryAlias of
           Some e \<Rightarrow> (s1, Some e)
         | None \<Rightarrow>
             (s1\<lparr>handovers := handovers s1 @ [CallChangeTabletType oldPrimaryAlias SPARE]\<rparr>,
              ChangeTabletType env oldPrimaryAlias SPARE))"

text \<open>Phases 3 to 5 of reconcileDrain, from line 242 of the source on.\<close>

definition reconcileTransitions ::
  "'pos env \<Rightarrow> VitessShard \<Rightarrow> ShardInfo \<Rightarrow> (string \<times> TabletInfo) list \<Rightarrow> pass \<Rightarrow>
   (Result \<times> error option) outcome \<times> pass" where
  "reconcileTransitions env vts shard tablets s2 =
     (let primaryAliasStr = TabletAliasString (PrimaryAlias shard);
          transitions = StateTransitions env (drains s2);
          s3 = applyTransitions env primaryAliasStr transitions s2
      in if panicked s3 then (Panicked, s3)
      else case disableFastShutdown env tablets (mysqldImage vts) (rangePodsUpgrade env) s3 of
        (s4, Some e) \<Rightarrow>
          returnError e
            (emit EventTypeWarning ''MysqldSafeUpgradeFailed''
               (''failed to disable fast shutdown: '' @ e) s4)
      | (s4, None) \<Rightarrow>
          if acknowledgedDrain s4 \<and> stateAt (drains s4) primaryAliasStr \<noteq> FinishedState
          then returnResult
                 (emit EventTypeNormal ''NotReparentingPrimary''
                    ''We have acknowledged a drain this loop'' s4)
          else if stateAt (drains s4) primaryAliasStr \<noteq> FinishedState
                  \<and> stateAt transitions primaryAliasStr \<noteq> FinishedState
          then returnResult
                 (emit EventTypeNormal ''NotReparentingPrimary''
                    ''We are not marking primary as finished'' s4)
          else
            (case candidatePrimary (positionOps env) (ReplicationStatus env) (probeOrder env)
                    shard tablets (pods s4) (usingExternalDatastore vts) of
               None \<Rightarrow>
                 returnRequeueAfter (replicationRequeueDelay env)
                   (emit EventTypeWarning ''DrainBlocked''
                      (''unable to drain primary tablet '' @ primaryAliasStr
                         @ '': no other tablet is a suitable primary candidate'') s4)
             | Some newPrimary \<Rightarrow>
                 let (s5, reparentErr) =
                       (if usingExternalDatastore vts
                        then handleExternalReparent env (Alias newPrimary) (PrimaryAlias shard) s4
                        else (s4\<lparr>handovers := handovers s4 @ [CallPlannedReparentShard (Alias newPrimary)]\<rparr>,
                              PlannedReparentShard env (Alias newPrimary)));
                     s6 = (case reparentErr of
                             Some e \<Rightarrow>
                               emit EventTypeWarning ''PlannedReparentFailed''
                                 (''planned reparent from current primary '' @ primaryAliasStr
                                    @ '' to candidate primary '' @ TabletAliasString (Alias newPrimary)
                                    @ '' failed: '' @ e) s5
                           | None \<Rightarrow>
                               emit EventTypeNormal ''PlannedReparent''
                                 (''planned reparent from old primary '' @ primaryAliasStr
                                    @ '' to new primary '' @ TabletAliasString (Alias newPrimary)
                                    @ '' succeeded'') s5)
                 in returnResult (s6\<lparr>reparentCount := reparentCount s6 @ [reparentErr]\<rparr>)))"

text \<open>Phase 2 of reconcileDrain and what follows it, from line 183 of the source on.\<close>

definition reconcileMarkers ::
  "'pos env \<Rightarrow> VitessShard \<Rightarrow> ShardInfo \<Rightarrow> (string \<times> TabletInfo) list \<Rightarrow> pass \<Rightarrow>
   (Result \<times> error option) outcome \<times> pass" where
  "reconcileMarkers env vts shard tablets s1 =
     (let s2 = fold (drainStateStep env) (rangePods env) s1
      in if length (drains s2) = 0 then returnResult s2
         else if abortingDrain s2
         then returnResult
                (emit EventTypeWarning ''AbortingDrain''
                   ''detected that we are aborting drain'' s2)
         else reconcileTransitions env vts shard tablets s2)"

subsection \<open>reconcileDrain\<close>

text \<open>The read phase and the health gate; then the three phases above.\<close>

definition reconcileDrain ::
  "'pos env \<Rightarrow> VitessShard \<Rightarrow> (Result \<times> error option) outcome \<times> pass" where
  "reconcileDrain env vts =
     (case clientList env of
        Inl e \<Rightarrow>
          returnError e (emit EventTypeWarning ''ListFailed'' (''failed to list Pods: '' @ e) newPass)
      | Inr items \<Rightarrow>
     (case GetShard env of
        Inl e \<Rightarrow>
          returnRequeueAfter (replicationRequeueDelay env)
            (emit EventTypeWarning ''TopoGetFailed'' (''failed to get shard record: '' @ e) newPass)
      | Inr shard \<Rightarrow>
     (case GetTabletMapForShardByCell env of
        Inl e \<Rightarrow>
          returnRequeueAfter (replicationRequeueDelay env)
            (emit EventTypeWarning ''TopoGetFailed'' (''failed to get tablet records: '' @ e) newPass)
      | Inr tablets \<Rightarrow>
          let s1 = newPass\<lparr>pods := podIndex items\<rparr>
          in case isShardHealthy vts of
               Some e \<Rightarrow>
                 returnResult
                   (emit EventTypeWarning ''NotReconcilingDrain''
                      (''Shard is in an unhealthy state: '' @ e) s1)
             | None \<Rightarrow>
                 if \<not> HasPrimary shard
                 then returnResult
                        (emit EventTypeWarning ''NotReconcilingDrain''
                           ''Shard does not have a primary'' s1)
                 else reconcileMarkers env vts shard tablets s1)))"

subsection \<open>Invariants of a pass\<close>

text \<open>
  Two predicates on the state of a pass, used in the proofs below. The first is kept by
  every step of a pass: each pod is held under its own alias, and a finished marker on
  the pod held under the alias \<open>p\<close>, or on an object sent for it to the platform, is
  there only if \<open>was\<close> holds (read: the marker was there when the pass began). The second
  is kept by phase 2: every object sent to the platform is a pod without any drain
  marker, and nothing else has been done.
\<close>

definition keepsPrimary :: "bool \<Rightarrow> string \<Rightarrow> pass \<Rightarrow> bool" where
  "keepsPrimary was p s \<longleftrightarrow>
     (\<forall>k pod. pods s k = Some pod \<longrightarrow> podAlias pod = k)
     \<and> (\<forall>pod. pods s p = Some pod \<longrightarrow> Finished pod \<longrightarrow> was)
     \<and> (\<forall>u \<in> set (updates s). podAlias u = p \<longrightarrow> Finished u \<longrightarrow> was)"

definition onlyClears :: "pass \<Rightarrow> bool" where
  "onlyClears s \<longleftrightarrow>
     (\<forall>u \<in> set (updates s). \<not> Started u \<and> \<not> Acknowledged u \<and> \<not> Finished u)
     \<and> handovers s = [] \<and> commands s = [] \<and> reparentCount s = [] \<and> \<not> panicked s"

subsection \<open>Example shards\<close>

text \<open>
  The inputs of the examples below: a shard of cell \<open>zone1\<close> whose primary is tablet 100,
  replicas 101 to 103 with ready pods, replication positions that are natural numbers
  (zero is the zero position), a state machine that proposes "finished" for every
  draining pod, and collaborators that answer without error.
\<close>

definition natPositions :: "nat positions" where
  "natPositions = \<lparr>IsZero = (\<lambda>p. p = 0), AtLeast = (\<lambda>a b. b \<le> a)\<rparr>"

definition plainPod :: "string \<Rightarrow> pod" where
  "plainPod a = \<lparr>podName = ''pod-'' @ a, podAlias = a, tabletTypeLabel = ''replica'',
     podReady = True, containers = [], drainStarted = False, drainAcknowledged = False,
     drainFinished = False\<rparr>"

definition exampleShard :: ShardInfo where
  "exampleShard = \<lparr>PrimaryAlias = Some \<lparr>Cell = ''zone1'', Uid = 100\<rparr>\<rparr>"

definition markerState :: "pod \<Rightarrow> State \<times> error option" where
  "markerState p =
     (if Finished p then (FinishedState, None)
      else if Acknowledged p then (AcknowledgedState, None)
      else (DrainingState, None))"

definition quietEnv :: "nat env" where
  "quietEnv = \<lparr>
     clientList = Inr [],
     GetShard = Inr exampleShard,
     GetTabletMapForShardByCell = Inr [],
     clientUpdate = (\<lambda>p. None),
     GetState = markerState,
     StateTransitions = map (\<lambda>(k, st). (k, FinishedState)),
     rangePods = [],
     rangePodsUpgrade = [],
     ExecuteFetchAsDba = (\<lambda>t. None),
     positionOps = natPositions,
     ReplicationStatus = (\<lambda>t. Inl ''context deadline exceeded''),
     probeOrder = [],
     TabletExternallyReparented = (\<lambda>a. None),
     ChangeTabletType = (\<lambda>a t. None),
     PlannedReparentShard = (\<lambda>a. None),
     replicationRequeueDelay = 5\<rparr>"

definition replicaTablet :: "nat \<Rightarrow> TabletInfo" where
  "replicaTablet n = \<lparr>Alias = Some \<lparr>Cell = ''zone1'', Uid = n\<rparr>, Type = REPLICA\<rparr>"

definition exampleTablets :: "(string \<times> TabletInfo) list" where
  "exampleTablets =
     [(''zone1-0000000101'', replicaTablet 101),
      (''zone1-0000000102'', replicaTablet 102),
      (''zone1-0000000103'', replicaTablet 103)]"

definition examplePods :: "string \<rightharpoonup> pod" where
  "examplePods =
     podIndex [plainPod ''zone1-0000000101'', plainPod ''zone1-0000000102'',
               plainPod ''zone1-0000000103'']"

definition examplePosition :: "TabletInfo \<Rightarrow> nat" where
  "examplePosition t =
     (if t = replicaTablet 101 then 5 else if t = replicaTablet 102 then 9 else 3)"


definition zeroFirstPosition :: "TabletInfo \<Rightarrow> nat" where
  "zeroFirstPosition t =
     (if t = replicaTablet 101 then 0 else if t = replicaTablet 102 then 5 else 3)"
definition emptyStatusShard :: VitessShard where
  "emptyStatusShard = \<lparr>statusTablets = [], usingExternalDatastore = False, mysqldImage = []\<rparr>"

definition acknowledgedPod :: "string \<Rightarrow> pod" where
  "acknowledgedPod a = (plainPod a)\<lparr>drainStarted := True, drainAcknowledged := True\<rparr>"

definition finishEnv :: "nat env" where
  "finishEnv = quietEnv\<lparr>
     clientList := Inr [acknowledgedPod ''zone1-0000000100'', acknowledgedPod ''zone1-0000000101''],
     rangePods := [''zone1-0000000101'', ''zone1-0000000100'']\<rparr>"

definition abortEnv :: "nat env" where
  "abortEnv = quietEnv\<lparr>
     clientList := Inr [(plainPod ''zone1-0000000101'')\<lparr>drainFinished := True\<rparr>,
                        (plainPod ''zone1-0000000102'')\<lparr>drainStarted := True\<rparr>],
     rangePods := [''zone1-0000000101'', ''zone1-0000000102'']\<rparr>"

definition finishedPrimaryEnv :: "nat env" where
  "finishedPrimaryEnv = quietEnv\<lparr>
     clientList := Inr [(acknowledgedPod ''zone1-0000000100'')\<lparr>drainFinished := True\<rparr>],
     rangePods := [''zone1-0000000100'']\<rparr>"


section \<open>Properties of the version gate\<close>

lemma SplitN2_tagged:
  "CHR '':'' \<notin> set r \<Longrightarrow> SplitN2 (r @ CHR '':'' # v) = [r, v]"
  by (simp add: SplitN2_def takeWhile_append dropWhile_append)

lemma SplitN2_length: "length (SplitN2 s) = (if CHR '':'' \<in> set s then 2 else 1)"
  by (simp add: SplitN2_def)

lemma FindStringSubmatch_length:
  "length (FindStringSubmatch s) = 0 \<or> length (FindStringSubmatch s) = 4"
  by (simp add: FindStringSubmatch_def Let_def split: list.splits)

text \<open>
  Two images that name a repository without a colon and carry different tags: the gate
  depends on the tags only.
\<close>

lemma safeMysqldUpgrade_tagged:
  assumes "CHR '':'' \<notin> set r1" "CHR '':'' \<notin> set r2" "v1 \<noteq> v2"
  shows "safeMysqldUpgrade (r1 @ CHR '':'' # v1) (r2 @ CHR '':'' # v2) =
     (let curStrParts = FindStringSubmatch v1 in
        if length curStrParts \<noteq> 4 then (True, None)
        else
        let dstStrParts = FindStringSubmatch v2 in
        if length dstStrParts \<noteq> 4 then (True, None)
        else if curStrParts = dstStrParts then (False, None)
        else compareParts v1 v2 (map Atoi (tl curStrParts)) (map Atoi (tl dstStrParts)))"
proof -
  have ne: "r2 @ CHR '':'' # v2 \<noteq> r1 @ CHR '':'' # v1"
  proof
    assume "r2 @ CHR '':'' # v2 = r1 @ CHR '':'' # v1"
    then have "SplitN2 (r2 @ CHR '':'' # v2) = SplitN2 (r1 @ CHR '':'' # v1)" by simp
    with assms show False by (simp add: SplitN2_tagged)
  qed
  show ?thesis
    using ne assms by (simp add: safeMysqldUpgrade_def SplitN2_tagged Let_def)
qed

lemmas gate_eval = FindStringSubmatch_def isDigit_def Atoi_def digitVal_def maxInt_def
  compareParts_def Let_def downgradeError_def

text \<open>
  C3. The claim: a desired version whose major number is below the current one, or whose
  major number is the same and whose minor number is below the current one, gets an
  error. The source compares the desired major number with the current minor number
  (\<^verbatim>\<open>dstParts[0] == curParts[1]\<close>) before it reports a minor downgrade, so the
  downgrade from 8.1.0 to 8.0.0 gets no error: the gate answers that safe mode is needed.
\<close>

theorem safeMysqldUpgrade_minor_downgrade_accepted:
  "safeMysqldUpgrade ''mysql:8.1.0'' ''mysql:8.0.0'' = (True, None)"
  by (simp add: safeMysqldUpgrade_def SplitN2_def gate_eval)

text \<open>
  C5, as stated: the gate applied to the four pairs of bare version strings of the spec.
  A string without a colon has no version part, and the gate answers \<open>(false, nil)\<close> for
  it: the first three pairs below do not give the stated result (true, an error, true);
  the fourth gives \<open>(false, nil)\<close> as well.
\<close>

theorem safeMysqldUpgrade_bare_versions:
  "safeMysqldUpgrade ''8.0.33'' ''8.0.34'' = (False, None)
   \<and> safeMysqldUpgrade ''8.0.34'' ''8.0.20'' = (False, None)
   \<and> safeMysqldUpgrade ''5.7.9'' ''8.0.1'' = (False, None)
   \<and> safeMysqldUpgrade ''8.0.35'' ''8.0.36'' = (False, None)"
  by (simp add: safeMysqldUpgrade_def SplitN2_def)

text \<open>
  C5, amended: for images that carry the versions of the spec as their tag, after a
  repository name without a colon, the gate gives the four stated results: safe mode
  for 8.0.33 to 8.0.34, none for 8.0.35 to 8.0.36, the patch downgrade error for 8.0.34
  to 8.0.20, safe mode for 5.7.9 to 8.0.1.
\<close>

theorem safeMysqldUpgrade_spec_examples:
  assumes "CHR '':'' \<notin> set r1" "CHR '':'' \<notin> set r2"
  shows "safeMysqldUpgrade (r1 @ '':8.0.33'') (r2 @ '':8.0.34'') = (True, None)
     \<and> safeMysqldUpgrade (r1 @ '':8.0.35'') (r2 @ '':8.0.36'') = (False, None)
     \<and> safeMysqldUpgrade (r1 @ '':8.0.34'') (r2 @ '':8.0.20'')
          = (False, Some ''cannot downgrade patch version from 8.0.34 to 8.0.20'')
     \<and> safeMysqldUpgrade (r1 @ '':5.7.9'') (r2 @ '':8.0.1'') = (True, None)"
proof -
  have a: "safeMysqldUpgrade (r1 @ '':8.0.33'') (r2 @ '':8.0.34'') = (True, None)"
    using safeMysqldUpgrade_tagged [OF assms, of "''8.0.33''" "''8.0.34''"]
    by (simp add: gate_eval)
  have b: "safeMysqldUpgrade (r1 @ '':8.0.35'') (r2 @ '':8.0.36'') = (False, None)"
    using safeMysqldUpgrade_tagged [OF assms, of "''8.0.35''" "''8.0.36''"]
    by (simp add: gate_eval)
  have c: "safeMysqldUpgrade (r1 @ '':8.0.34'') (r2 @ '':8.0.20'')
          = (False, Some ''cannot downgrade patch version from 8.0.34 to 8.0.20'')"
    using safeMysqldUpgrade_tagged [OF assms, of "''8.0.34''" "''8.0.20''"]
    by (simp add: gate_eval)
  have d: "safeMysqldUpgrade (r1 @ '':5.7.9'') (r2 @ '':8.0.1'') = (True, None)"
    using safeMysqldUpgrade_tagged [OF assms, of "''5.7.9''" "''8.0.1''"]
    by (simp add: gate_eval)
  from a b c d show ?thesis by blast
qed

theorem safeMysqldUpgrade_spec_examples_witness:
  "safeMysqldUpgrade ''mysql:8.0.33'' ''vitess/lite:8.0.34'' = (True, None)
     \<and> safeMysqldUpgrade ''mysql:8.0.35'' ''vitess/lite:8.0.36'' = (False, None)
     \<and> safeMysqldUpgrade ''mysql:8.0.34'' ''vitess/lite:8.0.20''
          = (False, Some ''cannot downgrade patch version from 8.0.34 to 8.0.20'')
     \<and> safeMysqldUpgrade ''mysql:5.7.9'' ''vitess/lite:8.0.1'' = (True, None)"
  using safeMysqldUpgrade_spec_examples [of "''mysql''" "''vitess/lite''"] by simp

text \<open>
  C8, as stated: two non-empty, different images, the version part of the first of which
  does not parse. The second has no colon, and the gate answers \<open>(false, nil)\<close> before it
  looks at any version.
\<close>

theorem safeMysqldUpgrade_unparseable_untagged:
  "''mysql:abc'' \<noteq> [] \<and> ''mysql'' \<noteq> [] \<and> ''mysql:abc'' \<noteq> ''mysql''
   \<and> FindStringSubmatch (SplitN2 ''mysql:abc'' ! 1) = []
   \<and> safeMysqldUpgrade ''mysql:abc'' ''mysql'' = (False, None)"
  by (simp add: safeMysqldUpgrade_def SplitN2_def FindStringSubmatch_def isDigit_def)

text \<open>
  C8, amended: for two different images that both contain a colon, when the part after
  the first colon of either image does not start with a version (digits, dot, digits,
  dot, digits), the gate answers that safe mode is needed, without an error. For two
  images one of which contains no colon, the gate answers that safe mode is not needed,
  without an error, whatever the other image is.
\<close>

theorem safeMysqldUpgrade_unparseable:
  "(currentImage \<noteq> desiredImage
      \<and> CHR '':'' \<in> set currentImage \<and> CHR '':'' \<in> set desiredImage
      \<and> (FindStringSubmatch (SplitN2 currentImage ! 1) = []
          \<or> FindStringSubmatch (SplitN2 desiredImage ! 1) = [])
     \<longrightarrow> safeMysqldUpgrade currentImage desiredImage = (True, None))
   \<and> (CHR '':'' \<notin> set currentImage \<or> CHR '':'' \<notin> set desiredImage
     \<longrightarrow> safeMysqldUpgrade currentImage desiredImage = (False, None))"
proof (intro conjI impI)
  assume a: "currentImage \<noteq> desiredImage
      \<and> CHR '':'' \<in> set currentImage \<and> CHR '':'' \<in> set desiredImage
      \<and> (FindStringSubmatch (SplitN2 currentImage ! 1) = []
          \<or> FindStringSubmatch (SplitN2 desiredImage ! 1) = [])"
  then have ne: "currentImage \<noteq> []" "desiredImage \<noteq> []" by auto
  have len: "length (SplitN2 currentImage) = 2" "length (SplitN2 desiredImage) = 2"
    using a by (simp_all add: SplitN2_length)
  show "safeMysqldUpgrade currentImage desiredImage = (True, None)"
    using a ne len FindStringSubmatch_length [of "SplitN2 currentImage ! 1"]
    by (auto simp add: safeMysqldUpgrade_def Let_def)
next
  assume "CHR '':'' \<notin> set currentImage \<or> CHR '':'' \<notin> set desiredImage"
  then show "safeMysqldUpgrade currentImage desiredImage = (False, None)"
    by (auto simp add: safeMysqldUpgrade_def Let_def SplitN2_length)
qed

theorem safeMysqldUpgrade_unparseable_witness:
  "safeMysqldUpgrade ''mysql:latest'' ''mysql:8.0.34'' = (True, None)
   \<and> safeMysqldUpgrade ''mysql'' ''mysql:8.0.34'' = (False, None)"
  using safeMysqldUpgrade_unparseable [of "''mysql:latest''" "''mysql:8.0.34''"]
    safeMysqldUpgrade_unparseable [of "''mysql''" "''mysql:8.0.34''"]
  by (simp add: SplitN2_def FindStringSubmatch_def isDigit_def)

section \<open>Properties of updateDrainStatus\<close>

lemmas marker_defs = Started_def Acknowledged_def Finished_def Finish_def Acknowledge_def
  Unfinish_def Unacknowledge_def

text \<open>
  C9. When the markers of the pod already say the state asked for (finished: the
  finished marker is there; acknowledged: the acknowledged marker is there; not draining:
  neither is there), updateDrainStatus sends no update, leaves the pod as it is and
  returns no error, whatever the platform would have answered. For each of the three
  states, a second call with the same state, on the pod the first call left, finds
  nothing to do: it sends no update, leaves the pod as it is and returns no error.
\<close>

theorem updateDrainStatus_idempotent:
  "(Finished pod \<longrightarrow> updateDrainStatus upd pod FinishedState = Returned (pod, [], None))
   \<and> (Acknowledged pod \<longrightarrow> updateDrainStatus upd pod AcknowledgedState = Returned (pod, [], None))
   \<and> (\<not> Finished pod \<and> \<not> Acknowledged pod \<longrightarrow>
        updateDrainStatus upd pod NotDrainingState = Returned (pod, [], None))
   \<and> (st \<noteq> DrainingState \<longrightarrow>
        (\<exists>pod' sent err. updateDrainStatus upd pod st = Returned (pod', sent, err)
           \<and> updateDrainStatus upd pod' st = Returned (pod', [], None)))"
  by (cases st) (auto simp add: updateDrainStatus_def marker_defs)

theorem updateDrainStatus_idempotent_witness:
  "updateDrainStatus (\<lambda>p. Some ''conflict'') (Finish (plainPod ''zone1-0000000101'')) FinishedState
     = Returned (Finish (plainPod ''zone1-0000000101''), [], None)
   \<and> updateDrainStatus (\<lambda>p. Some ''conflict'') (acknowledgedPod ''zone1-0000000101'')
       AcknowledgedState = Returned (acknowledgedPod ''zone1-0000000101'', [], None)
   \<and> updateDrainStatus (\<lambda>p. Some ''conflict'') (plainPod ''zone1-0000000101'') NotDrainingState
     = Returned (plainPod ''zone1-0000000101'', [], None)
   \<and> updateDrainStatus (\<lambda>p. None) (plainPod ''zone1-0000000101'') FinishedState
     = Returned (Finish (plainPod ''zone1-0000000101''), [Finish (plainPod ''zone1-0000000101'')], None)"
proof -
  have f: "Finished (Finish (plainPod ''zone1-0000000101''))"
    and a: "Acknowledged (acknowledgedPod ''zone1-0000000101'')"
    and n: "\<not> Finished (plainPod ''zone1-0000000101'') \<and> \<not> Acknowledged (plainPod ''zone1-0000000101'')"
    by (simp_all add: marker_defs plainPod_def acknowledgedPod_def)
  have once: "updateDrainStatus (\<lambda>p. None) (plainPod ''zone1-0000000101'') FinishedState
     = Returned (Finish (plainPod ''zone1-0000000101''), [Finish (plainPod ''zone1-0000000101'')], None)"
    using n by (simp add: updateDrainStatus_def)
  from updateDrainStatus_idempotent [of "Finish (plainPod ''zone1-0000000101'')" "\<lambda>p. Some ''conflict''" FinishedState] f
    updateDrainStatus_idempotent [of "acknowledgedPod ''zone1-0000000101''" "\<lambda>p. Some ''conflict''" FinishedState] a
    updateDrainStatus_idempotent [of "plainPod ''zone1-0000000101''" "\<lambda>p. Some ''conflict''" FinishedState] n
    once
  show ?thesis by simp
qed

section \<open>Properties of candidatePrimary\<close>

lemmas example_eval = exampleTablets_def examplePods_def exampleShard_def replicaTablet_def
  plainPod_def podIndex_def TabletAliasEqual_def IsPodReady_def Started_def Acknowledged_def
  Finished_def Let_def

lemma example_candidates:
  "candidates exampleShard examplePods False exampleTablets
     = [replicaTablet 101, replicaTablet 102, replicaTablet 103]"
  by (simp add: example_eval)

lemma candidates_step:
  assumes "t \<in> set (candidates shard podMap usingExternal ((k, u) # tablets))"
    and "t \<notin> set (candidates shard podMap usingExternal tablets)"
  shows "t = u \<and> Alias u \<noteq> PrimaryAlias shard
     \<and> (\<exists>pod. podMap k = Some pod \<and> IsPodReady pod
        \<and> \<not> Started pod \<and> \<not> Acknowledged pod \<and> \<not> Finished pod
        \<and> (if usingExternal
            then tabletTypeLabel pod = ExternalMasterTabletPoolName
                 \<and> (Type u = SPARE \<or> Type u = PRIMARY)
            else Type u = REPLICA))"
proof (cases "podMap k")
  case None
  with assms show ?thesis by (simp add: Let_def split: if_splits)
next
  case (Some pod)
  with assms show ?thesis
    by (cases usingExternal) (simp_all add: Let_def TabletAliasEqual_def split: if_splits)
qed

lemma candidates_sound:
  "t \<in> set (candidates shard podMap usingExternal tablets) \<Longrightarrow>
   \<exists>key. (key, t) \<in> set tablets \<and> Alias t \<noteq> PrimaryAlias shard
     \<and> (\<exists>pod. podMap key = Some pod \<and> IsPodReady pod
        \<and> \<not> Started pod \<and> \<not> Acknowledged pod \<and> \<not> Finished pod
        \<and> (if usingExternal
            then tabletTypeLabel pod = ExternalMasterTabletPoolName
                 \<and> (Type t = SPARE \<or> Type t = PRIMARY)
            else Type t = REPLICA))"
proof -
  define ok where "ok = (\<lambda>key (t :: TabletInfo). Alias t \<noteq> PrimaryAlias shard
     \<and> (\<exists>pod. podMap key = Some pod \<and> IsPodReady pod
        \<and> \<not> Started pod \<and> \<not> Acknowledged pod \<and> \<not> Finished pod
        \<and> (if usingExternal
            then tabletTypeLabel pod = ExternalMasterTabletPoolName
                 \<and> (Type t = SPARE \<or> Type t = PRIMARY)
            else Type t = REPLICA)))"
  have "t \<in> set (candidates shard podMap usingExternal tablets) \<Longrightarrow>
      \<exists>key. (key, t) \<in> set tablets \<and> ok key t"
  proof (induction tablets)
    case Nil
    then show ?case by simp
  next
    case (Cons kt tablets)
    obtain k u where kt: "kt = (k, u)" by (cases kt)
    show ?case
    proof (cases "t \<in> set (candidates shard podMap usingExternal tablets)")
      case True
      from Cons.IH [OF True] obtain key where "(key, t) \<in> set tablets" "ok key t"
        by blast
      then have "(key, t) \<in> set (kt # tablets) \<and> ok key t" by simp
      then show ?thesis ..
    next
      case False
      from candidates_step [OF Cons.prems [unfolded kt] False]
      have "t = u \<and> ok k u" unfolding ok_def .
      with kt have "(k, t) \<in> set (kt # tablets) \<and> ok k t" by simp
      then show ?thesis ..
    qed
  qed
  then show "t \<in> set (candidates shard podMap usingExternal tablets) \<Longrightarrow> ?thesis"
    unfolding ok_def .
qed

lemma collect_best_from:
  "collect ops rs (b, h) = (b', h') \<Longrightarrow> b' = b \<or> (\<exists>t \<in> fst ` set rs. b' = Some t)"
proof (induction ops rs "(b, h)" arbitrary: b h rule: collect.induct)
  case (1 ops bestCandidate highestPosition)
  then show ?case by simp
next
  case (2 ops tablet err rest bestCandidate highestPosition)
  then show ?case by auto
next
  case (3 ops tablet position rest bestCandidate highestPosition)
  then show ?case by (auto split: if_splits)
qed

lemma arrivals_subset: "set (arrivals sched cs) \<subseteq> set cs"
  by (auto simp add: arrivals_def)

lemma candidatePrimary_is_candidate:
  assumes "candidatePrimary ops probe sched shard tablets podMap usingExternal = Some t"
  shows "t \<in> set (candidates shard podMap usingExternal tablets)"
proof -
  let ?cs = "candidates shard podMap usingExternal tablets"
  let ?rs = "map (\<lambda>tablet. (tablet, probe tablet)) (arrivals sched ?cs)"
  from assms have ne: "?cs \<noteq> []"
    by (auto simp add: candidatePrimary_def Let_def)
  obtain b h where c: "collect ops ?rs (None, None) = (b, h)" by (cases "collect ops ?rs (None, None)")
  show ?thesis
  proof (cases b)
    case None
    with assms c ne have "t = ?cs ! 0" by (simp add: candidatePrimary_def Let_def)
    with ne show ?thesis by (simp add: nth_mem)
  next
    case (Some u)
    with assms c ne have tu: "t = u" by (simp add: candidatePrimary_def Let_def)
    from collect_best_from [OF c] Some have "u \<in> fst ` set ?rs" by auto
    then have "u \<in> set (arrivals sched ?cs)" by (auto simp add: image_iff)
    with arrivals_subset [of sched ?cs] have "u \<in> set ?cs" ..
    with tu show ?thesis by simp
  qed
qed

text \<open>
  C6. Whenever candidatePrimary returns a tablet, the tablet is an entry of the tablet
  map, under some key, such that: its alias is not the alias of the current primary; the
  pod map has a pod under that key, and the pod is ready; the pod carries no started, no
  acknowledged and no finished marker; and, with an externally managed datastore, the pod
  is labelled as a member of the external primary pool and the tablet's type is SPARE or
  PRIMARY, otherwise the tablet's type is REPLICA. This holds for every answer of the
  probes and every order of their arrival.
\<close>

theorem candidatePrimary_eligible:
  assumes "candidatePrimary ops probe sched shard tablets podMap usingExternal = Some t"
  shows "\<exists>key. (key, t) \<in> set tablets \<and> Alias t \<noteq> PrimaryAlias shard
     \<and> (\<exists>pod. podMap key = Some pod \<and> IsPodReady pod
        \<and> \<not> Started pod \<and> \<not> Acknowledged pod \<and> \<not> Finished pod
        \<and> (if usingExternal
            then tabletTypeLabel pod = ExternalMasterTabletPoolName
                 \<and> (Type t = SPARE \<or> Type t = PRIMARY)
            else Type t = REPLICA))"
  using candidatePrimary_is_candidate [OF assms] by (rule candidates_sound)

theorem candidatePrimary_eligible_witness:
  "candidatePrimary natPositions (\<lambda>t. Inr (examplePosition t)) [0, 1, 2]
      exampleShard exampleTablets examplePods False = Some (replicaTablet 102)
   \<and> (\<exists>key. (key, replicaTablet 102) \<in> set exampleTablets
        \<and> Alias (replicaTablet 102) \<noteq> PrimaryAlias exampleShard
        \<and> (\<exists>pod. examplePods key = Some pod \<and> IsPodReady pod
           \<and> \<not> Started pod \<and> \<not> Acknowledged pod \<and> \<not> Finished pod
           \<and> (if False
               then tabletTypeLabel pod = ExternalMasterTabletPoolName
                    \<and> (Type (replicaTablet 102) = SPARE \<or> Type (replicaTablet 102) = PRIMARY)
               else Type (replicaTablet 102) = REPLICA)))"
proof -
  have e: "candidatePrimary natPositions (\<lambda>t. Inr (examplePosition t)) [0, 1, 2]
      exampleShard exampleTablets examplePods False = Some (replicaTablet 102)"
    by (simp add: example_eval candidatePrimary_def arrivals_def replaces_def natPositions_def
        examplePosition_def)
  from e candidatePrimary_eligible [OF e] show ?thesis by (rule conjI)
qed

lemma arrivals_perm:
  assumes "mset sched = mset [0..<length cs]"
  shows "mset (arrivals sched cs) = mset cs"
proof -
  from assms have "set sched = {0..<length cs}" by (metis mset_eq_setD set_upt)
  then have "filter (\<lambda>i. i < length cs) sched = sched" by (auto simp add: filter_id_conv)
  then have "mset (arrivals sched cs) = image_mset (\<lambda>i. cs ! i) (mset sched)"
    by (simp add: arrivals_def)
  also have "\<dots> = mset (map (\<lambda>i. cs ! i) [0..<length cs])" by (simp add: assms)
  also have "\<dots> = mset cs" by (simp add: map_nth)
  finally show ?thesis .
qed

lemma collect_none_respond:
  "\<forall>t \<in> set ts. \<exists>e. probe t = Inl e \<Longrightarrow>
   collect ops (map (\<lambda>t. (t, probe t)) ts) (b, h) = (b, h)"
  by (induction ts) auto

lemma collect_keeps_maximum:
  assumes resp: "\<forall>t \<in> C. probe t = Inr (position t)"
    and top: "\<forall>u \<in> C. AtLeast ops (position m) (position u)"
    and nz: "\<not> IsZero ops (position m)"
  shows "set ts \<subseteq> C \<Longrightarrow>
    collect ops (map (\<lambda>t. (t, probe t)) ts) (Some m, Some (position m))
      = (Some m, Some (position m))"
proof (induction ts)
  case Nil
  then show ?case by simp
next
  case (Cons t ts)
  from Cons.prems have tC: "t \<in> C" and tsC: "set ts \<subseteq> C" by auto
  from resp tC have pt: "probe t = Inr (position t)" by blast
  from top tC have "AtLeast ops (position m) (position t)" by blast
  with nz have "\<not> replaces ops (Some (position m)) (position t)" by (simp add: replaces_def)
  with pt Cons.IH [OF tsC] show ?case by simp
qed

lemma collect_first_maximum:
  assumes resp: "\<forall>t \<in> C. probe t = Inr (position t)"
    and trans: "\<forall>a \<in> C. \<forall>b \<in> C. \<forall>c \<in> C.
        AtLeast ops (position a) (position b) \<longrightarrow> AtLeast ops (position b) (position c)
        \<longrightarrow> AtLeast ops (position a) (position c)"
    and mC: "m \<in> C"
    and top: "\<forall>u \<in> C. AtLeast ops (position m) (position u)"
    and nz: "\<not> IsZero ops (position m)"
    and postC: "set post \<subseteq> C"
  shows "set pre \<subseteq> C \<Longrightarrow>
    \<forall>t \<in> set pre. \<not> (\<forall>u \<in> C. AtLeast ops (position t) (position u)) \<Longrightarrow>
    h = None \<or> (\<exists>b' \<in> C. h = Some (position b')
                  \<and> \<not> (\<forall>u \<in> C. AtLeast ops (position b') (position u))) \<Longrightarrow>
    collect ops (map (\<lambda>t. (t, probe t)) (pre @ m # post)) (b, h)
      = (Some m, Some (position m))"
proof (induction pre arbitrary: b h)
  case Nil
  from resp mC have pm: "probe m = Inr (position m)" by blast
  have "replaces ops h (position m)"
  proof (cases h)
    case None
    then show ?thesis by (simp add: replaces_def)
  next
    case (Some p)
    with Nil.prems(3) obtain b' where b': "b' \<in> C" "p = position b'"
      and notmax: "\<not> (\<forall>u \<in> C. AtLeast ops (position b') (position u))" by auto
    have "\<not> AtLeast ops (position b') (position m)"
    proof
      assume ge: "AtLeast ops (position b') (position m)"
      have "\<forall>u \<in> C. AtLeast ops (position b') (position u)"
      proof
        fix u assume uC: "u \<in> C"
        with top have "AtLeast ops (position m) (position u)" by blast
        with ge trans b'(1) mC uC show "AtLeast ops (position b') (position u)" by blast
      qed
      with notmax show False ..
    qed
    with Some b'(2) show ?thesis by (simp add: replaces_def)
  qed
  with pm collect_keeps_maximum [OF resp top nz postC]
  show ?case by simp
next
  case (Cons t pre)
  from Cons.prems(1) have tC: "t \<in> C" and preC: "set pre \<subseteq> C" by auto
  from Cons.prems(2) have tnot: "\<not> (\<forall>u \<in> C. AtLeast ops (position t) (position u))"
    and prenot: "\<forall>t \<in> set pre. \<not> (\<forall>u \<in> C. AtLeast ops (position t) (position u))"
    by auto
  from resp tC have pt: "probe t = Inr (position t)" by blast
  show ?case
  proof (cases "replaces ops h (position t)")
    case True
    from tC tnot have "Some (position t) = None \<or> (\<exists>b' \<in> C. Some (position t) = Some (position b')
        \<and> \<not> (\<forall>u \<in> C. AtLeast ops (position b') (position u)))" by blast
    from Cons.IH [OF preC prenot this, of "Some t"] True pt show ?thesis by simp
  next
    case False
    from Cons.IH [OF preC prenot Cons.prems(3), of b] False pt show ?thesis by simp
  qed
qed

lemma candidatePrimary_first_maximum:
  assumes cs: "cs = candidates shard podMap usingExternal tablets" "cs \<noteq> []"
    and perm: "mset sched = mset [0..<length cs]"
    and resp: "\<forall>t \<in> set cs. probe t = Inr (position t)"
    and trans: "\<forall>a \<in> set cs. \<forall>b \<in> set cs. \<forall>c \<in> set cs.
        AtLeast ops (position a) (position b) \<longrightarrow> AtLeast ops (position b) (position c)
        \<longrightarrow> AtLeast ops (position a) (position c)"
    and ex: "\<exists>m \<in> set cs. \<forall>u \<in> set cs. AtLeast ops (position m) (position u)"
    and nz: "\<forall>m \<in> set cs. (\<forall>u \<in> set cs. AtLeast ops (position m) (position u))
        \<longrightarrow> \<not> IsZero ops (position m)"
  shows "\<exists>pre t post. arrivals sched cs = pre @ t # post
     \<and> candidatePrimary ops probe sched shard tablets podMap usingExternal = Some t
     \<and> (\<forall>u \<in> set cs. AtLeast ops (position t) (position u))
     \<and> (\<forall>u \<in> set pre. \<not> AtLeast ops (position u) (position t))"
proof -
  let ?as = "arrivals sched cs"
  let ?top = "\<lambda>t. \<forall>u \<in> set cs. AtLeast ops (position t) (position u)"
  from arrivals_perm [OF perm] have seteq: "set ?as = set cs" by (rule mset_eq_setD)
  with ex have "\<exists>t \<in> set ?as. ?top t" by simp
  then obtain pre m post where dec: "?as = pre @ m # post" and m: "?top m"
    and pre: "\<forall>t \<in> set pre. \<not> ?top t"
    by (auto simp add: split_list_first_prop_iff)
  from dec seteq have mC: "m \<in> set cs" and preC: "set pre \<subseteq> set cs"
    and postC: "set post \<subseteq> set cs" by auto
  from nz mC m have mnz: "\<not> IsZero ops (position m)" by blast
  have "collect ops (map (\<lambda>t. (t, probe t)) (pre @ m # post)) (None, None)
      = (Some m, Some (position m))"
    by (rule collect_first_maximum [OF resp trans mC m mnz postC preC pre]) simp
  with dec cs have res: "candidatePrimary ops probe sched shard tablets podMap usingExternal = Some m"
    by (simp add: candidatePrimary_def Let_def)
  have behind: "\<forall>u \<in> set pre. \<not> AtLeast ops (position u) (position m)"
  proof
    fix u assume u: "u \<in> set pre"
    with preC have uC: "u \<in> set cs" by blast
    show "\<not> AtLeast ops (position u) (position m)"
    proof
      assume ge: "AtLeast ops (position u) (position m)"
      have "?top u"
      proof
        fix v assume vC: "v \<in> set cs"
        with m have "AtLeast ops (position m) (position v)" by blast
        with ge trans uC mC vC show "AtLeast ops (position u) (position v)" by blast
      qed
      with pre u show False by blast
    qed
  qed
  from dec res m behind show ?thesis by blast
qed

lemma collect_all_zero:
  assumes "\<forall>t \<in> set ts. probe t = Inr (position t) \<and> IsZero ops (position t)"
    and "ts \<noteq> []"
    and "h = None \<or> (\<exists>p. h = Some p \<and> IsZero ops p)"
  shows "collect ops (map (\<lambda>t. (t, probe t)) ts) (b, h)
      = (Some (last ts), Some (position (last ts)))"
  using assms
proof (induction ts arbitrary: b h)
  case Nil
  then show ?case by simp
next
  case (Cons t ts)
  from Cons.prems(1) have pt: "probe t = Inr (position t)" and zt: "IsZero ops (position t)"
    and rest: "\<forall>t \<in> set ts. probe t = Inr (position t) \<and> IsZero ops (position t)"
    by auto
  from Cons.prems(3) have rep: "replaces ops h (position t)"
    by (auto simp add: replaces_def)
  show ?case
  proof (cases "ts = []")
    case True
    with pt rep show ?thesis by simp
  next
    case False
    from zt have "Some (position t) = None \<or> (\<exists>p. Some (position t) = Some p \<and> IsZero ops p)"
      by simp
    from Cons.IH [OF rest False this, of "Some t"] pt rep False show ?thesis by simp
  qed
qed

lemma candidatePrimary_all_zero:
  assumes cs: "cs = candidates shard podMap usingExternal tablets" "cs \<noteq> []"
    and perm: "mset sched = mset [0..<length cs]"
    and zero: "\<forall>t \<in> set cs. probe t = Inr (position t) \<and> IsZero ops (position t)"
  shows "candidatePrimary ops probe sched shard tablets podMap usingExternal
      = Some (last (arrivals sched cs))"
proof -
  let ?as = "arrivals sched cs"
  from arrivals_perm [OF perm] have seteq: "set ?as = set cs" by (rule mset_eq_setD)
  with cs(2) have ne: "?as \<noteq> []" by auto
  from zero seteq have "\<forall>t \<in> set ?as. probe t = Inr (position t) \<and> IsZero ops (position t)"
    by simp
  from collect_all_zero [OF this ne, of None None]
  have "collect ops (map (\<lambda>t. (t, probe t)) ?as) (None, None)
      = (Some (last ?as), Some (position (last ?as)))" by simp
  with cs show ?thesis by (simp add: candidatePrimary_def Let_def)
qed

lemma candidatePrimary_none_respond:
  assumes "cs = candidates shard podMap usingExternal tablets" "cs \<noteq> []"
    and "\<forall>t \<in> set cs. \<exists>e. probe t = Inl e"
  shows "candidatePrimary ops probe sched shard tablets podMap usingExternal = Some (cs ! 0)"
proof -
  from assms(3) arrivals_subset [of sched cs]
  have "\<forall>t \<in> set (arrivals sched cs). \<exists>e. probe t = Inl e" by blast
  then have "collect ops (map (\<lambda>t. (t, probe t)) (arrivals sched cs)) (None, None) = (None, None)"
    by (rule collect_none_respond)
  with assms(1,2) show ?thesis
    by (simp add: candidatePrimary_def Let_def)
qed

text \<open>
  C7, as stated: ties are kept by the earliest-seen highest responder. Two candidates
  answer in time, both with the zero position; 101 arrives first, 102 second. The source
  replaces the best candidate whenever the highest position so far is the zero position,
  so it returns 102, the later of the two.
\<close>

theorem candidatePrimary_zero_tie_keeps_latest:
  "arrivals [0, 1] (candidates exampleShard examplePods False (take 2 exampleTablets))
     = [replicaTablet 101, replicaTablet 102]
   \<and> IsZero natPositions 0
   \<and> candidatePrimary natPositions (\<lambda>t. Inr 0) [0, 1] exampleShard (take 2 exampleTablets)
        examplePods False = Some (replicaTablet 102)
   \<and> replicaTablet 102 \<noteq> replicaTablet 101"
  by (simp add: example_eval candidatePrimary_def arrivals_def replaces_def natPositions_def)

text \<open>
  C7, amended. Let \<open>cs\<close> be the non-empty list of eligible candidates, and let every
  candidate's result arrive once. If every probe answers, \<open>AtLeast\<close> is transitive on the
  positions of the candidates, some candidate's position is at least that of every
  candidate, and no such furthest position is the zero position, then the tablet
  returned is the first in the order of arrival whose position is at least that of every
  candidate: every candidate that arrived before it is strictly behind it. If no probe
  answers, the tablet returned is the first candidate of the list. If every probe answers
  with the zero position, the tablet returned is the last in the order of arrival.
\<close>

theorem candidatePrimary_selection:
  assumes "cs = candidates shard podMap usingExternal tablets" "cs \<noteq> []"
    and "mset sched = mset [0..<length cs]"
  shows "((\<forall>t \<in> set cs. probe t = Inr (position t))
       \<and> (\<forall>a \<in> set cs. \<forall>b \<in> set cs. \<forall>c \<in> set cs.
            AtLeast ops (position a) (position b) \<longrightarrow> AtLeast ops (position b) (position c)
            \<longrightarrow> AtLeast ops (position a) (position c))
       \<and> (\<exists>m \<in> set cs. \<forall>u \<in> set cs. AtLeast ops (position m) (position u))
       \<and> (\<forall>m \<in> set cs. (\<forall>u \<in> set cs. AtLeast ops (position m) (position u))
            \<longrightarrow> \<not> IsZero ops (position m))
      \<longrightarrow> (\<exists>pre t post. arrivals sched cs = pre @ t # post
            \<and> candidatePrimary ops probe sched shard tablets podMap usingExternal = Some t
            \<and> (\<forall>u \<in> set cs. AtLeast ops (position t) (position u))
            \<and> (\<forall>u \<in> set pre. \<not> AtLeast ops (position u) (position t))))
    \<and> ((\<forall>t \<in> set cs. \<exists>e. probe t = Inl e)
      \<longrightarrow> candidatePrimary ops probe sched shard tablets podMap usingExternal = Some (cs ! 0))
    \<and> ((\<forall>t \<in> set cs. probe t = Inr (position t) \<and> IsZero ops (position t))
      \<longrightarrow> candidatePrimary ops probe sched shard tablets podMap usingExternal
            = Some (last (arrivals sched cs)))"
proof (intro conjI impI)
  assume h: "(\<forall>t \<in> set cs. probe t = Inr (position t))
       \<and> (\<forall>a \<in> set cs. \<forall>b \<in> set cs. \<forall>c \<in> set cs.
            AtLeast ops (position a) (position b) \<longrightarrow> AtLeast ops (position b) (position c)
            \<longrightarrow> AtLeast ops (position a) (position c))
       \<and> (\<exists>m \<in> set cs. \<forall>u \<in> set cs. AtLeast ops (position m) (position u))
       \<and> (\<forall>m \<in> set cs. (\<forall>u \<in> set cs. AtLeast ops (position m) (position u))
            \<longrightarrow> \<not> IsZero ops (position m))"
  show "\<exists>pre t post. arrivals sched cs = pre @ t # post
            \<and> candidatePrimary ops probe sched shard tablets podMap usingExternal = Some t
            \<and> (\<forall>u \<in> set cs. AtLeast ops (position t) (position u))
            \<and> (\<forall>u \<in> set pre. \<not> AtLeast ops (position u) (position t))"
    by (rule candidatePrimary_first_maximum [OF assms h [THEN conjunct1]
          h [THEN conjunct2, THEN conjunct1]
          h [THEN conjunct2, THEN conjunct2, THEN conjunct1]
          h [THEN conjunct2, THEN conjunct2, THEN conjunct2]])
next
  assume "\<forall>t \<in> set cs. \<exists>e. probe t = Inl e"
  with assms(1,2) show "candidatePrimary ops probe sched shard tablets podMap usingExternal
      = Some (cs ! 0)"
    by (rule candidatePrimary_none_respond)
next
  assume "\<forall>t \<in> set cs. probe t = Inr (position t) \<and> IsZero ops (position t)"
  with assms show "candidatePrimary ops probe sched shard tablets podMap usingExternal
      = Some (last (arrivals sched cs))"
    by (rule candidatePrimary_all_zero)
qed

text \<open>
  The two examples of the spec: positions 5, 9 and 3 for the candidates 101, 102 and 103
  (arriving in the order 103, 101, 102) give 102; no answer for the candidates 101 and
  102 gives 101. Two more: positions 0, 5 and 3 (arriving in the order 101, 103, 102)
  give 102, the zero position of 101 being behind the others; the zero position for both
  101 and 102, arriving in the order 102, 101, gives 101, the last to arrive.
\<close>

theorem candidatePrimary_selection_witness:
  "candidatePrimary natPositions (\<lambda>t. Inr (examplePosition t)) [2, 0, 1]
      exampleShard exampleTablets examplePods False = Some (replicaTablet 102)
   \<and> candidatePrimary natPositions (\<lambda>t. Inr (zeroFirstPosition t)) [0, 2, 1]
      exampleShard exampleTablets examplePods False = Some (replicaTablet 102)
   \<and> candidatePrimary natPositions (\<lambda>t. Inl ''context deadline exceeded'') [1, 0]
      exampleShard (take 2 exampleTablets) examplePods False = Some (replicaTablet 101)
   \<and> candidatePrimary natPositions (\<lambda>t. Inr 0) [1, 0]
      exampleShard (take 2 exampleTablets) examplePods False = Some (replicaTablet 101)"
proof -
  let ?A = "replicaTablet 101" and ?B = "replicaTablet 102" and ?C = "replicaTablet 103"
  have cs: "[?A, ?B, ?C] = candidates exampleShard examplePods False exampleTablets"
    by (simp add: example_candidates)
  have ne: "[?A, ?B, ?C] \<noteq> []" by simp
  have perm: "mset [2, 0, 1] = mset [0..<length [?A, ?B, ?C]]"
    "mset [0, 2, 1] = mset [0..<length [?A, ?B, ?C]]"
    by (simp_all add: upt_rec)
  have first: "candidatePrimary natPositions (\<lambda>t. Inr (examplePosition t)) [2, 0, 1]
        exampleShard exampleTablets examplePods False = Some ?B"
  proof -
    let ?probe = "\<lambda>t. Inr (examplePosition t) :: error + nat"
    have pos: "examplePosition ?A = 5" "examplePosition ?B = 9" "examplePosition ?C = 3"
      by (simp_all add: examplePosition_def replicaTablet_def)
    have hyp: "(\<forall>t \<in> set [?A, ?B, ?C]. ?probe t = Inr (examplePosition t))
         \<and> (\<forall>a \<in> set [?A, ?B, ?C]. \<forall>b \<in> set [?A, ?B, ?C]. \<forall>c \<in> set [?A, ?B, ?C].
              AtLeast natPositions (examplePosition a) (examplePosition b)
              \<longrightarrow> AtLeast natPositions (examplePosition b) (examplePosition c)
              \<longrightarrow> AtLeast natPositions (examplePosition a) (examplePosition c))
         \<and> (\<exists>m \<in> set [?A, ?B, ?C]. \<forall>u \<in> set [?A, ?B, ?C].
              AtLeast natPositions (examplePosition m) (examplePosition u))
         \<and> (\<forall>m \<in> set [?A, ?B, ?C].
              (\<forall>u \<in> set [?A, ?B, ?C]. AtLeast natPositions (examplePosition m) (examplePosition u))
              \<longrightarrow> \<not> IsZero natPositions (examplePosition m))"
      by (simp add: natPositions_def pos)
    note inst = candidatePrimary_selection [OF cs ne perm(1), of ?probe examplePosition natPositions]
    from inst [THEN conjunct1, THEN mp, OF hyp]
    obtain pre t post where dec: "arrivals [2, 0, 1] [?A, ?B, ?C] = pre @ t # post"
      and t: "candidatePrimary natPositions ?probe [2, 0, 1]
          exampleShard exampleTablets examplePods False = Some t"
      and best: "\<forall>u \<in> set [?A, ?B, ?C].
          AtLeast natPositions (examplePosition t) (examplePosition u)"
      by blast
    from dec have mem: "t \<in> set (arrivals [2, 0, 1] [?A, ?B, ?C])" by simp
    from best have "9 \<le> examplePosition t" by (simp add: natPositions_def pos)
    moreover from mem have "t = ?A \<or> t = ?B \<or> t = ?C" by (auto simp add: arrivals_def)
    ultimately have "t = ?B" using pos by auto
    with t show ?thesis by simp
  qed
  have second: "candidatePrimary natPositions (\<lambda>t. Inr (zeroFirstPosition t)) [0, 2, 1]
        exampleShard exampleTablets examplePods False = Some ?B"
  proof -
    let ?probe = "\<lambda>t. Inr (zeroFirstPosition t) :: error + nat"
    have pos: "zeroFirstPosition ?A = 0" "zeroFirstPosition ?B = 5" "zeroFirstPosition ?C = 3"
      by (simp_all add: zeroFirstPosition_def replicaTablet_def)
    have hyp: "(\<forall>t \<in> set [?A, ?B, ?C]. ?probe t = Inr (zeroFirstPosition t))
         \<and> (\<forall>a \<in> set [?A, ?B, ?C]. \<forall>b \<in> set [?A, ?B, ?C]. \<forall>c \<in> set [?A, ?B, ?C].
              AtLeast natPositions (zeroFirstPosition a) (zeroFirstPosition b)
              \<longrightarrow> AtLeast natPositions (zeroFirstPosition b) (zeroFirstPosition c)
              \<longrightarrow> AtLeast natPositions (zeroFirstPosition a) (zeroFirstPosition c))
         \<and> (\<exists>m \<in> set [?A, ?B, ?C]. \<forall>u \<in> set [?A, ?B, ?C].
              AtLeast natPositions (zeroFirstPosition m) (zeroFirstPosition u))
         \<and> (\<forall>m \<in> set [?A, ?B, ?C].
              (\<forall>u \<in> set [?A, ?B, ?C]. AtLeast natPositions (zeroFirstPosition m) (zeroFirstPosition u))
              \<longrightarrow> \<not> IsZero natPositions (zeroFirstPosition m))"
      by (simp add: natPositions_def pos)
    note inst = candidatePrimary_selection [OF cs ne perm(2), of ?probe zeroFirstPosition natPositions]
    from inst [THEN conjunct1, THEN mp, OF hyp]
    obtain pre t post where dec: "arrivals [0, 2, 1] [?A, ?B, ?C] = pre @ t # post"
      and t: "candidatePrimary natPositions ?probe [0, 2, 1]
          exampleShard exampleTablets examplePods False = Some t"
      and best: "\<forall>u \<in> set [?A, ?B, ?C].
          AtLeast natPositions (zeroFirstPosition t) (zeroFirstPosition u)"
      by blast
    from dec have mem: "t \<in> set (arrivals [0, 2, 1] [?A, ?B, ?C])" by simp
    from best have "5 \<le> zeroFirstPosition t" by (simp add: natPositions_def pos)
    moreover from mem have "t = ?A \<or> t = ?B \<or> t = ?C" by (auto simp add: arrivals_def)
    ultimately have "t = ?B" using pos by auto
    with t show ?thesis by simp
  qed
  have cs2: "[?A, ?B] = candidates exampleShard examplePods False (take 2 exampleTablets)"
    by (simp add: example_eval)
  have ne2: "[?A, ?B] \<noteq> []" by simp
  have perm2: "mset [1, 0] = mset [0..<length [?A, ?B]]"
    by (simp add: upt_rec)
  from candidatePrimary_selection [OF cs2 ne2 perm2, of "\<lambda>t. Inl ''context deadline exceeded''" examplePosition
      natPositions, THEN conjunct2, THEN conjunct1]
  have third: "candidatePrimary natPositions (\<lambda>t. Inl ''context deadline exceeded'') [1, 0]
      exampleShard (take 2 exampleTablets) examplePods False = Some ?A"
    by simp
  have z: "\<forall>t \<in> set [?A, ?B]. (Inr 0 :: error + nat) = Inr ((\<lambda>t. 0) t)
      \<and> IsZero natPositions ((\<lambda>t. 0) t)"
    by (simp add: natPositions_def)
  from candidatePrimary_selection [OF cs2 ne2 perm2, of "\<lambda>t. Inr 0" "\<lambda>t. 0" natPositions,
      THEN conjunct2, THEN conjunct2, THEN mp, OF z]
  have fourth: "candidatePrimary natPositions (\<lambda>t. Inr 0) [1, 0]
      exampleShard (take 2 exampleTablets) examplePods False = Some ?A"
    by (simp add: arrivals_def)
  from first second third fourth show ?thesis by simp
qed

section \<open>Properties of a pass\<close>

lemma markDrainStatus_frame:
  assumes "markDrainStatus pod st = Returned (pod', upd)"
  shows "podAlias pod' = podAlias pod \<and> Started pod' = Started pod"
  using assms by (cases st) (auto simp add: marker_defs Let_def split: if_splits)

lemma markDrainStatus_not_finished:
  assumes "markDrainStatus pod st = Returned (pod', upd)" "st \<noteq> FinishedState" "Finished pod'"
  shows "Finished pod"
  using assms by (cases st) (auto simp add: marker_defs Let_def split: if_splits)

lemma markDrainStatus_clears:
  assumes "markDrainStatus pod NotDrainingState = Returned (pod', upd)"
  shows "\<not> Acknowledged pod' \<and> \<not> Finished pod'"
  using assms by (auto simp add: marker_defs Let_def split: if_splits)

lemma updateDrainStatus_cases:
  assumes "updateDrainStatus upd pod st = Returned (pod', sent, err)"
  shows "\<exists>b. markDrainStatus pod st = Returned (pod', b) \<and> (sent = [] \<or> sent = [pod'])"
  using assms
  by (cases "markDrainStatus pod st") (auto simp add: updateDrainStatus_def split: if_splits)

lemma updateDrainStatus_NotDraining:
  "\<exists>pod' sent err. updateDrainStatus upd pod NotDrainingState = Returned (pod', sent, err)"
  by (simp add: updateDrainStatus_def Let_def split: prod.splits)

lemma emit_fields [simp]:
  "pods (emit ty r m s) = pods s" "updates (emit ty r m s) = updates s"
  "drains (emit ty r m s) = drains s" "abortingDrain (emit ty r m s) = abortingDrain s"
  "acknowledgedDrain (emit ty r m s) = acknowledgedDrain s"
  "commands (emit ty r m s) = commands s" "handovers (emit ty r m s) = handovers s"
  "reparentCount (emit ty r m s) = reparentCount s" "panicked (emit ty r m s) = panicked s"
  "builder (emit ty r m s) = builder s"
  by (simp_all add: emit_def)

lemma keepsPrimary_frame:
  "pods s' = pods s \<Longrightarrow> updates s' = updates s \<Longrightarrow> keepsPrimary was p s' = keepsPrimary was p s"
  by (simp add: keepsPrimary_def)

lemma onlyClears_frame:
  "updates s' = updates s \<Longrightarrow> handovers s' = handovers s \<Longrightarrow> commands s' = commands s
   \<Longrightarrow> reparentCount s' = reparentCount s \<Longrightarrow> panicked s' = panicked s
   \<Longrightarrow> onlyClears s' = onlyClears s"
  by (simp add: onlyClears_def)

text \<open>What applyUpdate changes.\<close>

lemma applyUpdate_Returned:
  assumes "updateDrainStatus (clientUpdate env) pod st = Returned (pod', sent, err)"
  shows "pods (applyUpdate env key pod st s) = (pods s)(key \<mapsto> pod')
     \<and> updates (applyUpdate env key pod st s) = updates s @ sent
     \<and> drains (applyUpdate env key pod st s) = drains s
     \<and> abortingDrain (applyUpdate env key pod st s) = abortingDrain s
     \<and> acknowledgedDrain (applyUpdate env key pod st s) = acknowledgedDrain s
     \<and> commands (applyUpdate env key pod st s) = commands s
     \<and> handovers (applyUpdate env key pod st s) = handovers s
     \<and> reparentCount (applyUpdate env key pod st s) = reparentCount s
     \<and> panicked (applyUpdate env key pod st s) = panicked s"
  using assms by (cases err) (simp_all add: applyUpdate_def Let_def)

lemma applyUpdate_Panicked:
  assumes "updateDrainStatus (clientUpdate env) pod st = Panicked"
  shows "applyUpdate env key pod st s = s\<lparr>panicked := True\<rparr>"
  using assms by (simp add: applyUpdate_def)

lemma applyUpdate_keepsPrimary:
  assumes inv: "keepsPrimary was p s" and pod: "pods s key = Some pod"
    and st: "st = FinishedState \<longrightarrow> key \<noteq> p"
  shows "keepsPrimary was p (applyUpdate env key pod st s)"
proof (cases "updateDrainStatus (clientUpdate env) pod st")
  case Panicked
  with inv show ?thesis
    by (simp add: applyUpdate_Panicked keepsPrimary_def)
next
  case (Returned r)
  obtain pod' sent err where r: "r = (pod', sent, err)" by (cases r)
  note eq = applyUpdate_Returned [OF Returned [unfolded r], of key s]
  from updateDrainStatus_cases [OF Returned [unfolded r]] obtain b where
    m: "markDrainStatus pod st = Returned (pod', b)" and sent: "sent = [] \<or> sent = [pod']"
    by blast
  from inv pod have al: "podAlias pod = key" by (simp add: keepsPrimary_def)
  with markDrainStatus_frame [OF m] have al': "podAlias pod' = key" by simp
  have fin: "key = p \<Longrightarrow> Finished pod' \<Longrightarrow> was"
  proof -
    assume kp: "key = p" and f: "Finished pod'"
    from kp st have "st \<noteq> FinishedState" by blast
    with m have "Finished pod" using f by (rule markDrainStatus_not_finished)
    with inv pod kp show was by (simp add: keepsPrimary_def)
  qed
  show ?thesis
    unfolding keepsPrimary_def
  proof (intro conjI allI impI ballI)
    fix k q assume "pods (applyUpdate env key pod st s) k = Some q"
    with eq have "((pods s)(key \<mapsto> pod')) k = Some q" by simp
    with inv al' show "podAlias q = k"
      by (cases "k = key") (auto simp add: keepsPrimary_def)
  next
    fix q assume "pods (applyUpdate env key pod st s) p = Some q" and "Finished q"
    with eq have "((pods s)(key \<mapsto> pod')) p = Some q" "Finished q" by simp_all
    with inv fin show was
      by (cases "p = key") (auto simp add: keepsPrimary_def)
  next
    fix u assume u: "u \<in> set (updates (applyUpdate env key pod st s))" and a: "podAlias u = p"
      and f: "Finished u"
    from u eq have "u \<in> set (updates s) \<or> u \<in> set sent" by auto
    then show was
    proof
      assume "u \<in> set (updates s)"
      with inv a f show ?thesis by (simp add: keepsPrimary_def)
    next
      assume "u \<in> set sent"
      with sent have "u = pod'" by auto
      with a al' f fin show ?thesis by simp
    qed
  qed
qed

lemma applyUpdate_onlyClears:
  assumes inv: "onlyClears s" and pod: "\<not> Started pod"
  shows "onlyClears (applyUpdate env key pod NotDrainingState s)"
proof -
  from updateDrainStatus_NotDraining obtain pod' sent err where
    r: "updateDrainStatus (clientUpdate env) pod NotDrainingState = Returned (pod', sent, err)"
    by blast
  note eq = applyUpdate_Returned [OF r, of key s]
  from updateDrainStatus_cases [OF r] obtain b where
    m: "markDrainStatus pod NotDrainingState = Returned (pod', b)"
    and sent: "sent = [] \<or> sent = [pod']"
    by blast
  from markDrainStatus_frame [OF m] pod have "\<not> Started pod'" by simp
  with markDrainStatus_clears [OF m] sent
  have "\<forall>u \<in> set sent. \<not> Started u \<and> \<not> Acknowledged u \<and> \<not> Finished u" by auto
  with inv eq show ?thesis by (auto simp add: onlyClears_def)
qed

text \<open>Phase 2, one pod.\<close>

lemma drainStateStep_Started:
  assumes "pods s k = Some pod" "Started pod"
  shows "pods (drainStateStep env k s) = pods s
     \<and> updates (drainStateStep env k s) = updates s
     \<and> abortingDrain (drainStateStep env k s) = abortingDrain s
     \<and> commands (drainStateStep env k s) = commands s
     \<and> handovers (drainStateStep env k s) = handovers s
     \<and> reparentCount (drainStateStep env k s) = reparentCount s
     \<and> panicked (drainStateStep env k s) = panicked s"
  using assms
  by (simp add: drainStateStep_def Let_def split: prod.splits option.splits)

lemma drainStateStep_not_Started:
  assumes "pods s k = Some pod" "\<not> Started pod"
  shows "drainStateStep env k s =
     applyUpdate env k pod NotDrainingState
       (if Acknowledged pod \<or> Finished pod
        then emit EventTypeWarning ''AbortingDrain''
               (''found a partially drained Pod that does not have a drain request: '' @ podName pod)
               (s\<lparr>abortingDrain := True\<rparr>)
        else s)"
  using assms by (simp add: drainStateStep_def Let_def)

lemma drainStateStep_None:
  "pods s k = None \<Longrightarrow> drainStateStep env k s = s"
  by (simp add: drainStateStep_def)

lemma drainStateStep_keepsPrimary:
  assumes "keepsPrimary was p s"
  shows "keepsPrimary was p (drainStateStep env k s)"
proof (cases "pods s k")
  case None
  with assms show ?thesis by (simp add: drainStateStep_None)
next
  case (Some pod)
  show ?thesis
  proof (cases "Started pod")
    case True
    from drainStateStep_Started [OF Some True, of env]
    have "pods (drainStateStep env k s) = pods s" "updates (drainStateStep env k s) = updates s"
      by simp_all
    from keepsPrimary_frame [OF this] assms show ?thesis by simp
  next
    case False
    let ?s1 = "if Acknowledged pod \<or> Finished pod
        then emit EventTypeWarning ''AbortingDrain''
               (''found a partially drained Pod that does not have a drain request: '' @ podName pod)
               (s\<lparr>abortingDrain := True\<rparr>)
        else s"
    have fr: "pods ?s1 = pods s" "updates ?s1 = updates s" by simp_all
    from keepsPrimary_frame [OF fr] assms have "keepsPrimary was p ?s1" by simp
    moreover from fr Some have "pods ?s1 k = Some pod" by simp
    ultimately have "keepsPrimary was p ?s1" "pods ?s1 k = Some pod" by simp_all
    then have "keepsPrimary was p (applyUpdate env k pod NotDrainingState ?s1)"
      by (rule applyUpdate_keepsPrimary) simp
    then show ?thesis by (simp only: drainStateStep_not_Started [OF Some False])
  qed
qed

lemma drainStateStep_onlyClears:
  assumes "onlyClears s"
  shows "onlyClears (drainStateStep env k s)"
proof (cases "pods s k")
  case None
  with assms show ?thesis by (simp add: drainStateStep_None)
next
  case (Some pod)
  show ?thesis
  proof (cases "Started pod")
    case True
    from drainStateStep_Started [OF Some True, of env] assms show ?thesis
      by (simp add: onlyClears_def)
  next
    case False
    let ?s1 = "if Acknowledged pod \<or> Finished pod
        then emit EventTypeWarning ''AbortingDrain''
               (''found a partially drained Pod that does not have a drain request: '' @ podName pod)
               (s\<lparr>abortingDrain := True\<rparr>)
        else s"
    from assms have "onlyClears ?s1" by (simp add: onlyClears_def)
    then have "onlyClears (applyUpdate env k pod NotDrainingState ?s1)"
      using False by (rule applyUpdate_onlyClears)
    then show ?thesis by (simp only: drainStateStep_not_Started [OF Some False])
  qed
qed

lemma drainStateStep_aborting_mono:
  assumes "abortingDrain s"
  shows "abortingDrain (drainStateStep env k s)"
proof (cases "pods s k")
  case None
  with assms show ?thesis by (simp add: drainStateStep_None)
next
  case (Some pod)
  show ?thesis
  proof (cases "Started pod")
    case True
    from drainStateStep_Started [OF Some True, of env] assms show ?thesis by simp
  next
    case False
    from updateDrainStatus_NotDraining obtain pod' sent err where
      r: "updateDrainStatus (clientUpdate env) pod NotDrainingState = Returned (pod', sent, err)"
      by blast
    from assms show ?thesis
      by (simp add: drainStateStep_not_Started [OF Some False] applyUpdate_Returned [OF r])
  qed
qed

lemma drainStateStep_detects:
  assumes "pods s k = Some pod" "\<not> Started pod" "Acknowledged pod \<or> Finished pod"
  shows "abortingDrain (drainStateStep env k s)"
proof -
  from updateDrainStatus_NotDraining obtain pod' sent err where
    r: "updateDrainStatus (clientUpdate env) pod NotDrainingState = Returned (pod', sent, err)"
    by blast
  from assms(3) show ?thesis
    by (simp add: drainStateStep_not_Started [OF assms(1,2)] applyUpdate_Returned [OF r])
qed

lemma drainStateStep_other:
  assumes "k \<noteq> x"
  shows "pods (drainStateStep env x s) k = pods s k"
proof (cases "pods s x")
  case None
  then show ?thesis by (simp add: drainStateStep_None)
next
  case (Some pod)
  show ?thesis
  proof (cases "Started pod")
    case True
    from drainStateStep_Started [OF Some True, of env] show ?thesis by simp
  next
    case False
    from updateDrainStatus_NotDraining obtain pod' sent err where
      r: "updateDrainStatus (clientUpdate env) pod NotDrainingState = Returned (pod', sent, err)"
      by blast
    from assms show ?thesis
      by (simp add: drainStateStep_not_Started [OF Some False] applyUpdate_Returned [OF r])
  qed
qed

text \<open>Phase 2, the loop.\<close>

lemma fold_drainStateStep_keepsPrimary:
  "keepsPrimary was p s \<Longrightarrow> keepsPrimary was p (fold (drainStateStep env) order s)"
proof (induction order arbitrary: s)
  case Nil
  then show ?case by simp
next
  case (Cons x order)
  from Cons.prems have "keepsPrimary was p (drainStateStep env x s)" by (rule drainStateStep_keepsPrimary)
  then have "keepsPrimary was p (fold (drainStateStep env) order (drainStateStep env x s))" by (rule Cons.IH)
  then show ?case by simp
qed

lemma fold_drainStateStep_onlyClears:
  "onlyClears s \<Longrightarrow> onlyClears (fold (drainStateStep env) order s)"
proof (induction order arbitrary: s)
  case Nil
  then show ?case by simp
next
  case (Cons x order)
  from Cons.prems have "onlyClears (drainStateStep env x s)" by (rule drainStateStep_onlyClears)
  then have "onlyClears (fold (drainStateStep env) order (drainStateStep env x s))" by (rule Cons.IH)
  then show ?case by simp
qed

lemma fold_drainStateStep_aborting_mono:
  "abortingDrain s \<Longrightarrow> abortingDrain (fold (drainStateStep env) order s)"
proof (induction order arbitrary: s)
  case Nil
  then show ?case by simp
next
  case (Cons x order)
  from Cons.prems have "abortingDrain (drainStateStep env x s)" by (rule drainStateStep_aborting_mono)
  then have "abortingDrain (fold (drainStateStep env) order (drainStateStep env x s))" by (rule Cons.IH)
  then show ?case by simp
qed

lemma fold_drainStateStep_detects:
  assumes "k \<in> set order" "pods s k = Some pod" "\<not> Started pod"
    "Acknowledged pod \<or> Finished pod"
  shows "abortingDrain (fold (drainStateStep env) order s)"
  using assms
proof (induction order arbitrary: s)
  case Nil
  then show ?case by simp
next
  case (Cons x order)
  show ?case
  proof (cases "x = k")
    case True
    with Cons.prems have "abortingDrain (drainStateStep env x s)"
      by (simp add: drainStateStep_detects)
    then show ?thesis by (simp add: fold_drainStateStep_aborting_mono)
  next
    case False
    with Cons.prems have "k \<in> set order" by simp
    moreover from False Cons.prems have "pods (drainStateStep env x s) k = Some pod"
      by (simp add: drainStateStep_other)
    ultimately have "abortingDrain (fold (drainStateStep env) order (drainStateStep env x s))"
      using Cons.prems(3,4) by (rule Cons.IH)
    then show ?thesis by simp
  qed
qed

text \<open>Phase 3.\<close>

lemma applyTransitions_keepsPrimary:
  "keepsPrimary was p s \<Longrightarrow> keepsPrimary was p (applyTransitions env p ts s)"
proof (induction ts arbitrary: s)
  case Nil
  then show ?case by simp
next
  case (Cons kst ts)
  obtain k st where kst: "kst = (k, st)" by (cases kst)
  show ?case
  proof (cases "st = FinishedState \<and> k = p")
    case True
    with kst Cons show ?thesis by simp
  next
    case False
    let ?s1 = "if st = AcknowledgedState then s\<lparr>acknowledgedDrain := True\<rparr> else s"
    from Cons.prems have inv1: "keepsPrimary was p ?s1" by (simp add: keepsPrimary_def)
    show ?thesis
    proof (cases "pods ?s1 k")
      case None
      with False kst have "applyTransitions env p (kst # ts) s = ?s1\<lparr>panicked := True\<rparr>"
        by (auto simp add: Let_def)
      with inv1 show ?thesis by (simp add: keepsPrimary_def)
    next
      case (Some pod)
      let ?s2 = "applyUpdate env k pod st ?s1"
      from False have "st = FinishedState \<longrightarrow> k \<noteq> p" by blast
      with inv1 Some have inv2: "keepsPrimary was p ?s2" by (rule applyUpdate_keepsPrimary)
      from False kst Some have eq: "applyTransitions env p (kst # ts) s
          = (if panicked ?s2 then ?s2 else applyTransitions env p ts ?s2)"
        by (auto simp add: Let_def)
      show ?thesis
      proof (cases "panicked ?s2")
        case True
        with eq inv2 show ?thesis by simp
      next
        case False
        from inv2 have "keepsPrimary was p (applyTransitions env p ts ?s2)" by (rule Cons.IH)
        with eq False show ?thesis by simp
      qed
    qed
  qed
qed

text \<open>What follows phase 3 sends no update and changes no pod.\<close>

lemma disableFastShutdown_frame:
  "pods (fst (disableFastShutdown env tablets img order s)) = pods s
   \<and> updates (fst (disableFastShutdown env tablets img order s)) = updates s"
proof (induction order arbitrary: s)
  case Nil
  then show ?case by simp
next
  case (Cons k order)
  show ?case
  proof (cases "pods s k")
    case None
    with Cons show ?thesis by simp
  next
    case (Some pod)
    show ?thesis
    proof (cases "map_of tablets k")
      case None
      with Some Cons show ?thesis by simp
    next
      case (Some tablet)
      obtain needsSafe err where g: "safeMysqldUpgrade (mysqldContainerImage (containers pod)) img
          = (needsSafe, err)" by (cases "safeMysqldUpgrade (mysqldContainerImage (containers pod)) img")
      show ?thesis
      proof (cases err)
        case (Some e)
        with g \<open>pods s k = Some pod\<close> \<open>map_of tablets k = Some tablet\<close> show ?thesis
          by (simp add: Let_def)
      next
        case None
        note noerr = None
        show ?thesis
        proof (cases needsSafe)
          case False
          with g noerr \<open>pods s k = Some pod\<close> \<open>map_of tablets k = Some tablet\<close> Cons
          show ?thesis by (simp add: Let_def)
        next
          case True
          show ?thesis
          proof (cases "ExecuteFetchAsDba env tablet")
            case (Some e)
            with True g noerr \<open>pods s k = Some pod\<close> \<open>map_of tablets k = Some tablet\<close>
            show ?thesis by (simp add: Let_def)
          next
            case None
            let ?s' = "emit EventTypeNormal ''MySQL_Upgrade''
                ''innodb_fast_shutdown = 0 to prepare MySQL upgrade''
                (s\<lparr>commands := commands s @ [k]\<rparr>)"
            from None True g noerr \<open>pods s k = Some pod\<close> \<open>map_of tablets k = Some tablet\<close>
            have "disableFastShutdown env tablets img (k # order) s
                = disableFastShutdown env tablets img order ?s'"
              by (simp add: Let_def)
            with Cons [of ?s'] show ?thesis by simp
          qed
        qed
      qed
    qed
  qed
qed

lemma return_frames [simp]:
  "pods (snd (returnResult s)) = pods s" "updates (snd (returnResult s)) = updates s"
  "pods (snd (returnError e s)) = pods s" "updates (snd (returnError e s)) = updates s"
  "pods (snd (returnRequeueAfter d s)) = pods s" "updates (snd (returnRequeueAfter d s)) = updates s"
  by (simp_all add: returnResult_def returnError_def returnRequeueAfter_def)

lemma handleExternalReparent_frame:
  "handleExternalReparent env a b s = (s', e) \<Longrightarrow> pods s' = pods s \<and> updates s' = updates s"
  by (auto simp add: handleExternalReparent_def Let_def split: option.splits)

lemma reconcileTransitions_frame:
  "pods (snd (reconcileTransitions env vts shard tablets s2))
     = pods (applyTransitions env (TabletAliasString (PrimaryAlias shard))
              (StateTransitions env (drains s2)) s2)
   \<and> updates (snd (reconcileTransitions env vts shard tablets s2))
     = updates (applyTransitions env (TabletAliasString (PrimaryAlias shard))
              (StateTransitions env (drains s2)) s2)"
proof -
  let ?p = "TabletAliasString (PrimaryAlias shard)"
  let ?s3 = "applyTransitions env ?p (StateTransitions env (drains s2)) s2"
  obtain s4 err where d: "disableFastShutdown env tablets (mysqldImage vts) (rangePodsUpgrade env) ?s3
      = (s4, err)" by (cases "disableFastShutdown env tablets (mysqldImage vts) (rangePodsUpgrade env) ?s3")
  from disableFastShutdown_frame [of env tablets "mysqldImage vts" "rangePodsUpgrade env" ?s3] d
  have s4: "pods s4 = pods ?s3" "updates s4 = updates ?s3" by simp_all
  show ?thesis
    using d s4
    by (auto simp add: reconcileTransitions_def Let_def split: option.splits prod.splits
        dest!: handleExternalReparent_frame)
qed

lemma podIndex_fold_alias:
  "(\<forall>k pod. m k = Some pod \<longrightarrow> podAlias pod = k) \<Longrightarrow>
   fold (\<lambda>pod m. m(podAlias pod \<mapsto> pod)) items m k = Some pod \<Longrightarrow> podAlias pod = k"
proof (induction items arbitrary: m)
  case Nil
  then show ?case by simp
next
  case (Cons x items)
  from Cons.prems(1) have "\<forall>k pod. (m(podAlias x \<mapsto> x)) k = Some pod \<longrightarrow> podAlias pod = k"
    by auto
  moreover from Cons.prems(2)
  have "fold (\<lambda>pod m. m(podAlias pod \<mapsto> pod)) items (m(podAlias x \<mapsto> x)) k = Some pod"
    by (simp only: fold_simps comp_apply)
  ultimately show ?case by (rule Cons.IH)
qed

lemma podIndex_alias: "podIndex items k = Some pod \<Longrightarrow> podAlias pod = k"
  unfolding podIndex_def by (rule podIndex_fold_alias [of Map.empty]) simp_all

lemma reconcileMarkers_keepsPrimary:
  assumes "keepsPrimary was (TabletAliasString (PrimaryAlias shard)) s1"
  shows "keepsPrimary was (TabletAliasString (PrimaryAlias shard))
           (snd (reconcileMarkers env vts shard tablets s1))"
proof -
  let ?p = "TabletAliasString (PrimaryAlias shard)"
  let ?s2 = "fold (drainStateStep env) (rangePods env) s1"
  let ?s3 = "applyTransitions env ?p (StateTransitions env (drains ?s2)) ?s2"
  from assms have k2: "keepsPrimary was ?p ?s2" by (rule fold_drainStateStep_keepsPrimary)
  then have k3: "keepsPrimary was ?p ?s3" by (rule applyTransitions_keepsPrimary)
  from reconcileTransitions_frame [of env vts shard tablets ?s2]
  have "keepsPrimary was ?p (snd (reconcileTransitions env vts shard tablets ?s2)) = keepsPrimary was ?p ?s3"
    by (intro keepsPrimary_frame) simp_all
  with k3 have k4: "keepsPrimary was ?p (snd (reconcileTransitions env vts shard tablets ?s2))" by simp
  have "snd (reconcileMarkers env vts shard tablets s1) = snd (returnResult ?s2)
      \<or> snd (reconcileMarkers env vts shard tablets s1)
          = snd (returnResult (emit EventTypeWarning ''AbortingDrain''
                   ''detected that we are aborting drain'' ?s2))
      \<or> snd (reconcileMarkers env vts shard tablets s1)
          = snd (reconcileTransitions env vts shard tablets ?s2)"
    by (simp add: reconcileMarkers_def Let_def)
  then show ?thesis
  proof (elim disjE)
    assume e: "snd (reconcileMarkers env vts shard tablets s1) = snd (returnResult ?s2)"
    have "keepsPrimary was ?p (snd (returnResult ?s2)) = keepsPrimary was ?p ?s2"
      by (intro keepsPrimary_frame) simp_all
    with k2 e show ?thesis by simp
  next
    assume e: "snd (reconcileMarkers env vts shard tablets s1)
          = snd (returnResult (emit EventTypeWarning ''AbortingDrain''
                   ''detected that we are aborting drain'' ?s2))"
    have "keepsPrimary was ?p (snd (returnResult (emit EventTypeWarning ''AbortingDrain''
                   ''detected that we are aborting drain'' ?s2))) = keepsPrimary was ?p ?s2"
      by (intro keepsPrimary_frame) simp_all
    with k2 e show ?thesis by simp
  next
    assume "snd (reconcileMarkers env vts shard tablets s1)
          = snd (reconcileTransitions env vts shard tablets ?s2)"
    with k4 show ?thesis by simp
  qed
qed

lemma reconcileDrain_keepsPrimary:
  assumes "clientList env = Inr items" "GetShard env = Inr shard"
    and "was = (\<exists>pod. podIndex items (TabletAliasString (PrimaryAlias shard)) = Some pod
                  \<and> Finished pod)"
  shows "keepsPrimary was (TabletAliasString (PrimaryAlias shard)) (snd (reconcileDrain env vts))"
proof -
  let ?p = "TabletAliasString (PrimaryAlias shard)"
  let ?s1 = "newPass\<lparr>pods := podIndex items\<rparr>"
  have early: "\<And>s. pods s = Map.empty \<Longrightarrow> updates s = [] \<Longrightarrow> keepsPrimary was ?p s"
    by (simp add: keepsPrimary_def)
  from assms(3) have k1: "keepsPrimary was ?p ?s1"
    by (auto simp add: keepsPrimary_def newPass_def dest: podIndex_alias)
  show ?thesis
  proof (cases "GetTabletMapForShardByCell env")
    case (Inl e)
    with assms(1,2) show ?thesis
      by (simp add: reconcileDrain_def early newPass_def)
  next
    case (Inr tablets)
    show ?thesis
    proof (cases "isShardHealthy vts = None \<and> HasPrimary shard")
      case True
      with assms(1,2) Inr have "reconcileDrain env vts = reconcileMarkers env vts shard tablets ?s1"
        by (simp add: reconcileDrain_def Let_def)
      with reconcileMarkers_keepsPrimary [OF k1] show ?thesis by simp
    next
      case False
      have fr: "\<And>ty r m. keepsPrimary was ?p (snd (returnResult (emit ty r m ?s1)))
          = keepsPrimary was ?p ?s1"
        by (intro keepsPrimary_frame) simp_all
      from False assms(1,2) Inr k1 show ?thesis
        by (auto simp add: reconcileDrain_def Let_def fr split: option.splits)
    qed
  qed
qed

lemmas pass_eval = reconcileDrain_def reconcileMarkers_def reconcileTransitions_def
  returnResult_def returnError_def returnRequeueAfter_def emit_def newPass_def newBuilder_def
  builderResult_def builderError_def builderRequeueAfter_def podIndex_def isShardHealthy_def
  HasPrimary_def TabletAliasIsZero_def drainStateStep_def applyUpdate_def updateDrainStatus_def
  marker_defs stateAt_def Let_def candidatePrimary_def

lemmas example_env = quietEnv_def exampleShard_def emptyStatusShard_def plainPod_def
  acknowledgedPod_def markerState_def natPositions_def

text \<open>
  C1. The reconciler never writes the finished marker onto the pod of the current
  primary, whatever the state machine proposes: when the pod list and the shard record
  have been read, a finished marker found after the pass on the pod held under the
  primary's alias, or on any object the pass has sent to the platform for that alias,
  was already on the primary's pod in the list the pass began with.
\<close>

theorem reconcileDrain_primary_not_marked_finished:
  assumes "clientList env = Inr items" "GetShard env = Inr shard"
  shows "(\<forall>pod'. pods (snd (reconcileDrain env vts)) (TabletAliasString (PrimaryAlias shard)) = Some pod'
            \<and> Finished pod'
          \<longrightarrow> (\<exists>pod. podIndex items (TabletAliasString (PrimaryAlias shard)) = Some pod
                 \<and> Finished pod))
     \<and> (\<forall>u \<in> set (updates (snd (reconcileDrain env vts))).
            podAlias u = TabletAliasString (PrimaryAlias shard) \<and> Finished u
          \<longrightarrow> (\<exists>pod. podIndex items (TabletAliasString (PrimaryAlias shard)) = Some pod
                 \<and> Finished pod))"
  using reconcileDrain_keepsPrimary [OF assms refl, of vts] by (simp add: keepsPrimary_def)

text \<open>
  Two passes with a state machine that proposes "finished" for every draining pod. In
  the first the primary 100 and the replica 101 are acknowledged: the replica is marked
  as finished, the primary is not. In the second the primary carried the finished marker
  before the pass, and keeps it.
\<close>

theorem reconcileDrain_primary_not_marked_finished_witness:
  "stateAt (StateTransitions finishEnv [(''zone1-0000000100'', AcknowledgedState)])
      ''zone1-0000000100'' = FinishedState
   \<and> pods (snd (reconcileDrain finishEnv emptyStatusShard)) ''zone1-0000000100''
      = Some (acknowledgedPod ''zone1-0000000100'')
   \<and> \<not> Finished (acknowledgedPod ''zone1-0000000100'')
   \<and> updates (snd (reconcileDrain finishEnv emptyStatusShard))
      = [Finish (acknowledgedPod ''zone1-0000000101'')]
   \<and> pods (snd (reconcileDrain finishedPrimaryEnv emptyStatusShard)) ''zone1-0000000100''
      = Some ((acknowledgedPod ''zone1-0000000100'')\<lparr>drainFinished := True\<rparr>)
   \<and> (\<exists>pod. podIndex [(acknowledgedPod ''zone1-0000000100'')\<lparr>drainFinished := True\<rparr>]
              ''zone1-0000000100'' = Some pod \<and> Finished pod)"
proof -
  let ?items = "[acknowledgedPod ''zone1-0000000100'', acknowledgedPod ''zone1-0000000101'']"
  have p: "TabletAliasString (PrimaryAlias exampleShard) = ''zone1-0000000100''"
    by code_simp
  have p2: "TabletAliasString (Some \<lparr>Cell = ''zone1'', Uid = 100\<rparr>) = ''zone1-0000000100''"
    by code_simp
  have l: "clientList finishEnv = Inr ?items" and g: "GetShard finishEnv = Inr exampleShard"
    by (simp_all add: finishEnv_def quietEnv_def)
  have h: "\<not> (\<exists>pod. podIndex ?items (TabletAliasString (PrimaryAlias exampleShard)) = Some pod
      \<and> Finished pod)"
    by (simp add: p podIndex_def acknowledgedPod_def plainPod_def Finished_def)
  have a: "stateAt (StateTransitions finishEnv [(''zone1-0000000100'', AcknowledgedState)])
      ''zone1-0000000100'' = FinishedState"
    by (simp add: finishEnv_def quietEnv_def stateAt_def)
  have b: "pods (snd (reconcileDrain finishEnv emptyStatusShard)) ''zone1-0000000100''
      = Some (acknowledgedPod ''zone1-0000000100'')"
    by (simp add: finishEnv_def example_env pass_eval p2)
  have c: "updates (snd (reconcileDrain finishEnv emptyStatusShard))
      = [Finish (acknowledgedPod ''zone1-0000000101'')]"
    by (simp add: finishEnv_def example_env pass_eval p2)
  from reconcileDrain_primary_not_marked_finished [OF l g, of emptyStatusShard] b h
  have "\<not> Finished (acknowledgedPod ''zone1-0000000100'')" by (auto simp add: p)
  note first = this
  let ?items' = "[(acknowledgedPod ''zone1-0000000100'')\<lparr>drainFinished := True\<rparr>]"
  have l': "clientList finishedPrimaryEnv = Inr ?items'"
    and g': "GetShard finishedPrimaryEnv = Inr exampleShard"
    by (simp_all add: finishedPrimaryEnv_def quietEnv_def)
  have b': "pods (snd (reconcileDrain finishedPrimaryEnv emptyStatusShard)) ''zone1-0000000100''
      = Some ((acknowledgedPod ''zone1-0000000100'')\<lparr>drainFinished := True\<rparr>)"
    by (simp add: finishedPrimaryEnv_def example_env pass_eval p2)
  have f': "Finished ((acknowledgedPod ''zone1-0000000100'')\<lparr>drainFinished := True\<rparr>)"
    by (simp add: Finished_def)
  from reconcileDrain_primary_not_marked_finished [OF l' g', of emptyStatusShard] b' f'
  have second: "\<exists>pod. podIndex ?items' ''zone1-0000000100'' = Some pod \<and> Finished pod"
    by (auto simp add: p)
  from a b c first b' second show ?thesis by simp
qed

lemma reconcileMarkers_aborting:
  assumes "onlyClears s1" "k \<in> set (rangePods env)" "pods s1 k = Some pod"
    "\<not> Started pod" "Acknowledged pod \<or> Finished pod"
  shows "onlyClears (snd (reconcileMarkers env vts shard tablets s1))
     \<and> (\<exists>res. fst (reconcileMarkers env vts shard tablets s1) = Returned res)"
proof -
  let ?s2 = "fold (drainStateStep env) (rangePods env) s1"
  from assms(1) have c2: "onlyClears ?s2" by (rule fold_drainStateStep_onlyClears)
  from assms(2-5) have a2: "abortingDrain ?s2" by (rule fold_drainStateStep_detects)
  from c2 have c3: "onlyClears (emit EventTypeWarning ''AbortingDrain''
      ''detected that we are aborting drain'' ?s2)"
    by (simp add: onlyClears_def)
  from a2 c2 c3 show ?thesis
    by (simp add: reconcileMarkers_def Let_def returnResult_def)
qed

text \<open>
  C2, as stated: a pass that finds an aborted drain updates no pod. Pod 101 carries the
  finished marker and no started marker, pod 102 has a drain request; the pass sends one
  update, which clears the finished marker of pod 101.
\<close>

theorem reconcileDrain_aborting_clears_markers:
  "clientList abortEnv = Inr [(plainPod ''zone1-0000000101'')\<lparr>drainFinished := True\<rparr>,
                              (plainPod ''zone1-0000000102'')\<lparr>drainStarted := True\<rparr>]
   \<and> Finished ((plainPod ''zone1-0000000101'')\<lparr>drainFinished := True\<rparr>)
   \<and> \<not> Started ((plainPod ''zone1-0000000101'')\<lparr>drainFinished := True\<rparr>)
   \<and> updates (snd (reconcileDrain abortEnv emptyStatusShard)) = [plainPod ''zone1-0000000101'']"
  by (simp add: abortEnv_def example_env pass_eval)

text \<open>
  C2, amended. In a pass that visits a pod with an acknowledged or finished marker and
  no started marker, the only updates are those that clear the acknowledged and finished
  markers of pods without a drain request: every object sent to the platform is a pod
  with no started, no acknowledged and no finished marker. No transition of the state
  machine is applied, fast shutdown is switched off on no tablet, no handover call is
  made and no reparent is counted; the pass returns and does not panic.
\<close>

theorem reconcileDrain_aborting_frame:
  assumes "clientList env = Inr items"
    and "k \<in> set (rangePods env)" and "podIndex items k = Some pod"
    and "\<not> Started pod" and "Acknowledged pod \<or> Finished pod"
  shows "(\<exists>res. fst (reconcileDrain env vts) = Returned res)
     \<and> handovers (snd (reconcileDrain env vts)) = []
     \<and> commands (snd (reconcileDrain env vts)) = []
     \<and> reparentCount (snd (reconcileDrain env vts)) = []
     \<and> (\<forall>u \<in> set (updates (snd (reconcileDrain env vts))).
           \<not> Started u \<and> \<not> Acknowledged u \<and> \<not> Finished u)"
proof -
  let ?s1 = "newPass\<lparr>pods := podIndex items\<rparr>"
  have c1: "onlyClears ?s1" by (simp add: onlyClears_def newPass_def)
  have early: "\<And>ty r m. onlyClears (emit ty r m newPass)" "\<And>ty r m. onlyClears (emit ty r m ?s1)"
    by (simp_all add: onlyClears_def newPass_def)
  from assms(3) have pk: "pods ?s1 k = Some pod" by simp
  have "onlyClears (snd (reconcileDrain env vts))
      \<and> (\<exists>res. fst (reconcileDrain env vts) = Returned res)"
  proof (cases "GetShard env")
    case (Inl e)
    with assms(1) early show ?thesis
      by (simp add: reconcileDrain_def returnRequeueAfter_def returnResult_def onlyClears_def)
  next
    case shard: (Inr shard)
    show ?thesis
    proof (cases "GetTabletMapForShardByCell env")
      case (Inl e)
      with assms(1) shard early show ?thesis
        by (simp add: reconcileDrain_def returnRequeueAfter_def returnResult_def onlyClears_def)
    next
      case (Inr tablets)
      show ?thesis
      proof (cases "isShardHealthy vts = None \<and> HasPrimary shard")
        case True
        with assms(1) shard Inr
        have "reconcileDrain env vts = reconcileMarkers env vts shard tablets ?s1"
          by (simp add: reconcileDrain_def Let_def)
        with reconcileMarkers_aborting [OF c1 assms(2) pk assms(4,5), of vts shard tablets]
        show ?thesis by simp
      next
        case False
        with assms(1) shard Inr early show ?thesis
          by (auto simp add: reconcileDrain_def Let_def returnResult_def split: option.splits)
      qed
    qed
  qed
  then show ?thesis by (simp add: onlyClears_def)
qed

theorem reconcileDrain_aborting_frame_witness:
  "fst (reconcileDrain abortEnv emptyStatusShard) = Returned (\<lparr>RequeueAfter = 0\<rparr>, None)
   \<and> handovers (snd (reconcileDrain abortEnv emptyStatusShard)) = []
   \<and> commands (snd (reconcileDrain abortEnv emptyStatusShard)) = []
   \<and> reparentCount (snd (reconcileDrain abortEnv emptyStatusShard)) = []
   \<and> pods (snd (reconcileDrain abortEnv emptyStatusShard)) ''zone1-0000000102''
        = Some ((plainPod ''zone1-0000000102'')\<lparr>drainStarted := True\<rparr>)"
proof -
  let ?items = "[(plainPod ''zone1-0000000101'')\<lparr>drainFinished := True\<rparr>,
                 (plainPod ''zone1-0000000102'')\<lparr>drainStarted := True\<rparr>]"
  have l: "clientList abortEnv = Inr ?items"
    and k: "''zone1-0000000101'' \<in> set (rangePods abortEnv)"
    by (simp_all add: abortEnv_def quietEnv_def)
  have i: "podIndex ?items ''zone1-0000000101''
      = Some ((plainPod ''zone1-0000000101'')\<lparr>drainFinished := True\<rparr>)"
    by (simp add: podIndex_def plainPod_def)
  have m: "\<not> Started ((plainPod ''zone1-0000000101'')\<lparr>drainFinished := True\<rparr>)"
    "Acknowledged ((plainPod ''zone1-0000000101'')\<lparr>drainFinished := True\<rparr>)
     \<or> Finished ((plainPod ''zone1-0000000101'')\<lparr>drainFinished := True\<rparr>)"
    by (simp_all add: marker_defs plainPod_def)
  have a: "fst (reconcileDrain abortEnv emptyStatusShard) = Returned (\<lparr>RequeueAfter = 0\<rparr>, None)"
    by (simp add: abortEnv_def example_env pass_eval)
  have b: "pods (snd (reconcileDrain abortEnv emptyStatusShard)) ''zone1-0000000102''
        = Some ((plainPod ''zone1-0000000102'')\<lparr>drainStarted := True\<rparr>)"
    by (simp add: abortEnv_def example_env pass_eval)
  from reconcileDrain_aborting_frame [OF l k i m, of emptyStatusShard] a b show ?thesis by simp
qed

text \<open>
  C4, as stated: a failed read never gives an error result. When the pod list fails the
  pass returns the error of the list call, and asks for no retry after a delay.
\<close>

theorem reconcileDrain_list_failure_is_error:
  "fst (reconcileDrain (quietEnv\<lparr>clientList := Inl ''connection refused''\<rparr>) emptyStatusShard)
     = Returned (\<lparr>RequeueAfter = 0\<rparr>, Some ''connection refused'')"
  by (simp add: example_env pass_eval)

text \<open>
  C4, amended. When the pod list fails, the pass emits the warning event ListFailed and
  returns the list error as its error. When the shard record or the tablet map cannot be
  read from the topology store, the pass emits the warning event TopoGetFailed and
  returns a retry after \<^verbatim>\<open>replicationRequeueDelay\<close>, without an error. In the three cases
  no update is sent and no handover call is made.
\<close>

theorem reconcileDrain_read_failures:
  "(clientList env = Inl e \<longrightarrow>
      fst (reconcileDrain env vts) = Returned (\<lparr>RequeueAfter = 0\<rparr>, Some e)
      \<and> events (snd (reconcileDrain env vts))
          = [(EventTypeWarning, ''ListFailed'', ''failed to list Pods: '' @ e)]
      \<and> updates (snd (reconcileDrain env vts)) = []
      \<and> handovers (snd (reconcileDrain env vts)) = [])
   \<and> (clientList env = Inr items \<and> GetShard env = Inl e \<longrightarrow>
      fst (reconcileDrain env vts)
          = Returned (\<lparr>RequeueAfter = replicationRequeueDelay env\<rparr>, None)
      \<and> events (snd (reconcileDrain env vts))
          = [(EventTypeWarning, ''TopoGetFailed'', ''failed to get shard record: '' @ e)]
      \<and> updates (snd (reconcileDrain env vts)) = []
      \<and> handovers (snd (reconcileDrain env vts)) = [])
   \<and> (clientList env = Inr items \<and> GetShard env = Inr shard
        \<and> GetTabletMapForShardByCell env = Inl e \<longrightarrow>
      fst (reconcileDrain env vts)
          = Returned (\<lparr>RequeueAfter = replicationRequeueDelay env\<rparr>, None)
      \<and> events (snd (reconcileDrain env vts))
          = [(EventTypeWarning, ''TopoGetFailed'', ''failed to get tablet records: '' @ e)]
      \<and> updates (snd (reconcileDrain env vts)) = []
      \<and> handovers (snd (reconcileDrain env vts)) = [])"
  by (simp add: reconcileDrain_def returnError_def returnRequeueAfter_def returnResult_def
      builderError_def builderRequeueAfter_def builderResult_def emit_def newPass_def
      newBuilder_def)

theorem reconcileDrain_read_failures_witness:
  "fst (reconcileDrain (quietEnv\<lparr>clientList := Inl ''connection refused''\<rparr>) emptyStatusShard)
     = Returned (\<lparr>RequeueAfter = 0\<rparr>, Some ''connection refused'')
   \<and> fst (reconcileDrain (quietEnv\<lparr>GetShard := Inl ''topo down''\<rparr>) emptyStatusShard)
     = Returned (\<lparr>RequeueAfter = 5\<rparr>, None)
   \<and> events (snd (reconcileDrain (quietEnv\<lparr>GetShard := Inl ''topo down''\<rparr>) emptyStatusShard))
     = [(EventTypeWarning, ''TopoGetFailed'', ''failed to get shard record: topo down'')]
   \<and> fst (reconcileDrain (quietEnv\<lparr>GetTabletMapForShardByCell := Inl ''topo down''\<rparr>)
          emptyStatusShard)
     = Returned (\<lparr>RequeueAfter = 5\<rparr>, None)"
  using
    reconcileDrain_read_failures [of "quietEnv\<lparr>clientList := Inl ''connection refused''\<rparr>" "''connection refused''"
          emptyStatusShard "[]" exampleShard]
    reconcileDrain_read_failures [of "quietEnv\<lparr>GetShard := Inl ''topo down''\<rparr>" "''topo down''" emptyStatusShard "[]"
          exampleShard]
    reconcileDrain_read_failures [of "quietEnv\<lparr>GetTabletMapForShardByCell := Inl ''topo down''\<rparr>" "''topo down''"
          emptyStatusShard "[]" exampleShard]
  by (simp add: quietEnv_def)

section \<open>Properties of the shard health gate\<close>




end
